theory Spec2Isabelle
  imports Main "HOL-Library.Sublist"
begin

section \<open>Result model (core/checker.py, class ValidationResult)\<close>

text \<open>
  A bucket entry is the two-key dictionary \<^verbatim>\<open>{"check": ..., "message": ...}\<close>; the record
  a category module returns has the third key \<^verbatim>\<open>"status"\<close>, whose value is an arbitrary
  Python string.
\<close>

record entry =
  check :: string
  message :: string

record outcome = entry +
  status :: string

record ValidationResult =
  passed :: "entry list"
  failed :: "entry list"
  warnings :: "entry list"
  errors :: "entry list"

definition ValidationResult_init :: ValidationResult where
  "ValidationResult_init = \<lparr>passed = [], failed = [], warnings = [], errors = []\<rparr>"

text \<open>\<^verbatim>\<open>message or "Check passed"\<close>: the empty string is falsy.\<close>

definition add_pass :: "ValidationResult \<Rightarrow> string \<Rightarrow> string \<Rightarrow> ValidationResult" where
  "add_pass r check_name msg =
     r\<lparr>passed := passed r @
        [\<lparr>check = check_name, message = (if msg = [] then ''Check passed'' else msg)\<rparr>]\<rparr>"

definition add_fail :: "ValidationResult \<Rightarrow> string \<Rightarrow> string \<Rightarrow> ValidationResult" where
  "add_fail r check_name msg =
     r\<lparr>failed := failed r @ [\<lparr>check = check_name, message = msg\<rparr>]\<rparr>"

definition add_warning :: "ValidationResult \<Rightarrow> string \<Rightarrow> string \<Rightarrow> ValidationResult" where
  "add_warning r check_name msg =
     r\<lparr>warnings := warnings r @ [\<lparr>check = check_name, message = msg\<rparr>]\<rparr>"

definition add_error :: "ValidationResult \<Rightarrow> string \<Rightarrow> string \<Rightarrow> ValidationResult" where
  "add_error r check_name msg =
     r\<lparr>errors := errors r @ [\<lparr>check = check_name, message = msg\<rparr>]\<rparr>"

definition is_passing :: "ValidationResult \<Rightarrow> bool" where
  "is_passing r \<longleftrightarrow> length (failed r) = 0 \<and> length (errors r) = 0"

text \<open>
  The dictionary of \<^verbatim>\<open>get_summary\<close>; its keys \<^verbatim>\<open>passed\<close>, \<^verbatim>\<open>failed\<close>, \<^verbatim>\<open>warnings\<close>,
  \<^verbatim>\<open>errors\<close> and \<^verbatim>\<open>is_passing\<close> carry the prefix \<open>n_\<close> or \<open>sum_\<close> here, the plain names
  being the buckets'.
\<close>

record summary =
  total_checks :: nat
  n_passed :: nat
  n_failed :: nat
  n_warnings :: nat
  n_errors :: nat
  sum_is_passing :: bool

definition get_summary :: "ValidationResult \<Rightarrow> summary" where
  "get_summary r =
     \<lparr>total_checks = length (passed r) + length (failed r),
      n_passed = length (passed r),
      n_failed = length (failed r),
      n_warnings = length (warnings r),
      n_errors = length (errors r),
      sum_is_passing = is_passing r\<rparr>"

section \<open>Orchestrator (core/checker.py, class PositronikalStandardsChecker)\<close>

text \<open>
  What the checker observes of its surroundings during one run over an unmodified
  repository: for each category module, whether \<^verbatim>\<open>validate()\<close> raises (\<open>Inl\<close> of the
  exception's \<^verbatim>\<open>str\<close>) or returns its list of records (\<open>Inr\<close>), and which paths under
  the repository root exist (used by the forensic probes).
\<close>

record env =
  file_validator :: "string + outcome list"
  build_validator :: "string + outcome list"
  code_validator :: "string + outcome list"
  security_validator :: "string + outcome list"
  path_exists :: "string \<Rightarrow> bool"

datatype level = INFO | WARNING | ERROR

text \<open>
  The checker object: its fields, and the records emitted on the module's logger so far
  (a module-level object in the source, threaded through the checker here).
\<close>

record checker =
  repo_path :: string
  config_path :: "string option"
  results :: ValidationResult
  logged :: "(level \<times> string) list"

definition log_rec :: "level \<Rightarrow> string \<Rightarrow> checker \<Rightarrow> checker" where
  "log_rec lv msg c = c\<lparr>logged := logged c @ [(lv, msg)]\<rparr>"

datatype path_state = Absent | NotADirectory | Directory

datatype init_error = FileNotFoundError string | ValueError string

text \<open>
  \<^verbatim>\<open>__init__\<close>. \<open>st\<close> is what \<^verbatim>\<open>exists()\<close> and \<^verbatim>\<open>is_dir()\<close> find at the resolved path,
  \<open>resolved\<close> is \<^verbatim>\<open>str(Path(repo_path).resolve())\<close>, \<open>lg\<close> the logger's records so far.
\<close>

definition init ::
  "path_state \<Rightarrow> string \<Rightarrow> (level \<times> string) list \<Rightarrow> string \<Rightarrow> string option
     \<Rightarrow> init_error + checker" where
  "init st resolved lg repo_path_arg config =
     (if st = Absent then
        Inl (FileNotFoundError (''Repository path not found: '' @ repo_path_arg))
      else if st \<noteq> Directory then
        Inl (ValueError (''Repository path is not a directory: '' @ repo_path_arg))
      else
        Inr \<lparr>repo_path = resolved, config_path = config, results = ValidationResult_init,
             logged = lg @ [(INFO, ''Initialized checker for repository: '' @ resolved)]\<rparr>)"

text \<open>
  The body of the loop \<^verbatim>\<open>for result in ..._results\<close>, which the four \<^verbatim>\<open>_run_*_checks\<close>
  methods repeat verbatim: an \<^verbatim>\<open>if\<close>/\<^verbatim>\<open>elif\<close>/\<^verbatim>\<open>elif\<close> chain with no \<^verbatim>\<open>else\<close>.
\<close>

definition dispatch :: "ValidationResult \<Rightarrow> outcome \<Rightarrow> ValidationResult" where
  "dispatch r res =
     (if status res = ''pass'' then add_pass r (check res) (message res)
      else if status res = ''fail'' then add_fail r (check res) (message res)
      else if status res = ''warning'' then add_warning r (check res) (message res)
      else r)"

definition run_checks ::
  "string \<Rightarrow> string \<Rightarrow> string \<Rightarrow> (string + outcome list) \<Rightarrow> checker \<Rightarrow> checker" where
  "run_checks info_msg err_check err_prefix validate c =
     (let c1 = log_rec INFO info_msg c in
      case validate of
        Inr rs \<Rightarrow> c1\<lparr>results := foldl dispatch (results c1) rs\<rparr>
      | Inl e \<Rightarrow>
          log_rec ERROR (err_prefix @ e) (c1\<lparr>results := add_error (results c1) err_check e\<rparr>))"

definition run_file_checks :: "env \<Rightarrow> checker \<Rightarrow> checker" where
  "run_file_checks v =
     run_checks ''Checking file requirements...'' ''file_requirements''
       ''Error during file checks: '' (file_validator v)"

definition run_build_checks :: "env \<Rightarrow> checker \<Rightarrow> checker" where
  "run_build_checks v =
     run_checks ''Checking build system requirements...'' ''build_system''
       ''Error during build checks: '' (build_validator v)"

definition run_code_checks :: "env \<Rightarrow> checker \<Rightarrow> checker" where
  "run_code_checks v =
     run_checks ''Checking code standards...'' ''code_standards''
       ''Error during code checks: '' (code_validator v)"

definition run_security_checks :: "env \<Rightarrow> checker \<Rightarrow> checker" where
  "run_security_checks v =
     run_checks ''Checking security requirements...'' ''security''
       ''Error during security checks: '' (security_validator v)"

definition forensic_files :: "string list" where
  "forensic_files = [''METHODOLOGY.md'', ''VALIDATION.md'', ''LEGAL.md'']"

definition forensic_probe :: "env \<Rightarrow> ValidationResult \<Rightarrow> string \<Rightarrow> ValidationResult" where
  "forensic_probe v r filename =
     (if path_exists v filename then
        add_pass r (''forensic_file_'' @ filename)
          (''Required forensic documentation file exists: '' @ filename)
      else
        add_fail r (''forensic_file_'' @ filename)
          (''Missing required forensic documentation: '' @ filename))"

definition run_forensic_checks :: "env \<Rightarrow> checker \<Rightarrow> checker" where
  "run_forensic_checks v c =
     (let c1 = log_rec INFO ''Checking forensic tool standards...'' c in
      c1\<lparr>results := foldl (forensic_probe v) (results c1) forensic_files\<rparr>)"

text \<open>
  The entry points return \<^verbatim>\<open>self.results\<close>, the one object created by \<^verbatim>\<open>__init__\<close>;
  here they return the checker, whose \<open>results\<close> field is that object's state at return.
\<close>

definition check_all :: "env \<Rightarrow> bool \<Rightarrow> checker \<Rightarrow> checker" where
  "check_all v include_forensic c =
     (let c0 = log_rec INFO ''Starting comprehensive validation...'' c;
          c1 = run_file_checks v c0;
          c2 = run_build_checks v c1;
          c3 = run_code_checks v c2;
          c4 = run_security_checks v c3
      in if include_forensic then run_forensic_checks v c4 else c4)"

definition check_files :: "env \<Rightarrow> checker \<Rightarrow> checker" where
  "check_files v c = run_file_checks v c"

definition check_build :: "env \<Rightarrow> checker \<Rightarrow> checker" where
  "check_build v c = run_build_checks v c"

definition check_code :: "env \<Rightarrow> checker \<Rightarrow> checker" where
  "check_code v c = run_code_checks v c"

definition check_security :: "env \<Rightarrow> checker \<Rightarrow> checker" where
  "check_security v c = run_security_checks v c"

definition check_forensic :: "env \<Rightarrow> checker \<Rightarrow> checker" where
  "check_forensic v c = run_forensic_checks v c"

section \<open>The verdict\<close>

text \<open>
  C1. The verdict \<open>is_passing\<close> holds exactly when the failed bucket and the errors bucket
  are both empty, whatever the passed and warnings buckets contain.
\<close>

theorem is_passing_iff:
  "is_passing r = (failed r = [] \<and> errors r = [])
   \<and> is_passing (r\<lparr>warnings := w, passed := p\<rparr>) = is_passing r"
  by (simp add: is_passing_def)

section \<open>What a run adds to the report\<close>

text \<open>
  Vocabulary for stating what the orchestrator does to the four buckets. \<open>merge r d\<close>
  is the report \<open>r\<close> with the entries of \<open>d\<close> appended bucket by bucket.
  \<open>contribution name validate\<close> lists, bucket by bucket and in order, the entries one
  category yields: its records of status pass, fail and warning when \<^verbatim>\<open>validate()\<close>
  returned, a single errors entry \<open>(name, text)\<close> when it raised.
\<close>

definition merge :: "ValidationResult \<Rightarrow> ValidationResult \<Rightarrow> ValidationResult" where
  "merge r d =
     \<lparr>passed = passed r @ passed d, failed = failed r @ failed d,
      warnings = warnings r @ warnings d, errors = errors r @ errors d\<rparr>"

definition pass_entry :: "outcome \<Rightarrow> entry" where
  "pass_entry res =
     \<lparr>check = check res,
      message = (if message res = [] then ''Check passed'' else message res)\<rparr>"

definition plain_entry :: "outcome \<Rightarrow> entry" where
  "plain_entry res = \<lparr>check = check res, message = message res\<rparr>"

definition with_status :: "string \<Rightarrow> outcome list \<Rightarrow> outcome list" where
  "with_status st rs = filter (\<lambda>res. status res = st) rs"

definition contribution :: "string \<Rightarrow> (string + outcome list) \<Rightarrow> ValidationResult" where
  "contribution name validate =
     (case validate of
        Inl e \<Rightarrow>
          \<lparr>passed = [], failed = [], warnings = [],
           errors = [\<lparr>check = name, message = e\<rparr>]\<rparr>
      | Inr rs \<Rightarrow>
          \<lparr>passed = map pass_entry (with_status ''pass'' rs),
           failed = map plain_entry (with_status ''fail'' rs),
           warnings = map plain_entry (with_status ''warning'' rs),
           errors = []\<rparr>)"

definition forensic_contribution :: "env \<Rightarrow> ValidationResult" where
  "forensic_contribution v =
     \<lparr>passed =
        map (\<lambda>f. \<lparr>check = ''forensic_file_'' @ f,
                  message = ''Required forensic documentation file exists: '' @ f\<rparr>)
          (filter (path_exists v) forensic_files),
      failed =
        map (\<lambda>f. \<lparr>check = ''forensic_file_'' @ f,
                  message = ''Missing required forensic documentation: '' @ f\<rparr>)
          (filter (\<lambda>f. \<not> path_exists v f) forensic_files),
      warnings = [], errors = []\<rparr>"

definition all_contribution :: "env \<Rightarrow> bool \<Rightarrow> ValidationResult" where
  "all_contribution v include_forensic =
     merge (contribution ''file_requirements'' (file_validator v))
       (merge (contribution ''build_system'' (build_validator v))
          (merge (contribution ''code_standards'' (code_validator v))
             (merge (contribution ''security'' (security_validator v))
                (if include_forensic then forensic_contribution v
                 else ValidationResult_init))))"

text \<open>The public entry points of one checker, as functions on its state.\<close>

definition entry_points :: "env \<Rightarrow> (checker \<Rightarrow> checker) list" where
  "entry_points v =
     [check_all v False, check_all v True, check_files v, check_build v, check_code v,
      check_security v, check_forensic v]"

lemma merge_init: "merge r ValidationResult_init = r"
  by (simp add: merge_def ValidationResult_init_def)

lemma merge_assoc: "merge (merge a b) c = merge a (merge b c)"
  by (simp add: merge_def)

lemma merge_buckets:
  "passed (merge r d) = passed r @ passed d"
  "failed (merge r d) = failed r @ failed d"
  "warnings (merge r d) = warnings r @ warnings d"
  "errors (merge r d) = errors r @ errors d"
  by (simp_all add: merge_def)

lemma dispatch_merge: "dispatch r res = merge r (contribution name (Inr [res]))"
  by (simp add: dispatch_def merge_def contribution_def with_status_def add_pass_def
      add_fail_def add_warning_def pass_entry_def plain_entry_def)

lemma contribution_Cons:
  "merge (contribution name (Inr [res])) (contribution name (Inr rs)) =
   contribution name (Inr (res # rs))"
  by (simp add: merge_def contribution_def with_status_def)

lemma foldl_dispatch: "foldl dispatch r rs = merge r (contribution name (Inr rs))"
proof (induction rs arbitrary: r)
  case Nil
  show ?case by (simp add: merge_def contribution_def with_status_def)
next
  case (Cons res rs)
  have "foldl dispatch r (res # rs) = foldl dispatch (dispatch r res) rs" by simp
  also have "\<dots> = merge (dispatch r res) (contribution name (Inr rs))" by (rule Cons.IH)
  also have "\<dots> =
      merge r (merge (contribution name (Inr [res])) (contribution name (Inr rs)))"
    by (simp only: dispatch_merge [of r res name] merge_assoc)
  also have "\<dots> = merge r (contribution name (Inr (res # rs)))"
    by (simp only: contribution_Cons)
  finally show ?case .
qed

lemma run_checks_results:
  "results (run_checks i name p validate c) = merge (results c) (contribution name validate)"
proof (cases validate)
  case (Inl e)
  then show ?thesis
    by (simp add: run_checks_def log_rec_def add_error_def merge_def contribution_def)
next
  case (Inr rs)
  then show ?thesis
    by (simp add: run_checks_def log_rec_def foldl_dispatch [of _ _ name])
qed

lemma run_forensic_results:
  "results (run_forensic_checks v c) = merge (results c) (forensic_contribution v)"
  by (simp add: run_forensic_checks_def log_rec_def forensic_files_def forensic_probe_def
      forensic_contribution_def merge_def add_pass_def add_fail_def)

lemma check_all_results:
  "results (check_all v inc c) = merge (results c) (all_contribution v inc)"
  by (simp add: check_all_def Let_def run_file_checks_def run_build_checks_def
      run_code_checks_def run_security_checks_def run_checks_results run_forensic_results
      all_contribution_def merge_assoc merge_init log_rec_def)

lemma entry_point_adds:
  assumes "f \<in> set (entry_points v)"
  shows "\<exists>d. \<forall>c. results (f c) = merge (results c) d"
proof -
  from assms consider "f = check_all v False" | "f = check_all v True" | "f = check_files v"
    | "f = check_build v" | "f = check_code v" | "f = check_security v"
    | "f = check_forensic v"
    by (auto simp: entry_points_def)
  then show ?thesis
  proof cases
    case 1 then show ?thesis using check_all_results by blast
  next
    case 2 then show ?thesis using check_all_results by blast
  next
    case 3 then show ?thesis
      by (auto simp: fun_eq_iff check_files_def run_file_checks_def run_checks_results)
  next
    case 4 then show ?thesis
      by (auto simp: fun_eq_iff check_build_def run_build_checks_def run_checks_results)
  next
    case 5 then show ?thesis
      by (auto simp: fun_eq_iff check_code_def run_code_checks_def run_checks_results)
  next
    case 6 then show ?thesis
      by (auto simp: fun_eq_iff check_security_def run_security_checks_def run_checks_results)
  next
    case 7 then show ?thesis
      by (auto simp: fun_eq_iff check_forensic_def run_forensic_results)
  qed
qed

lemma merge_init_left: "merge ValidationResult_init d = d"
  by (simp add: merge_def ValidationResult_init_def)

lemma init_results: "init st rp lg a cfg = Inr c \<Longrightarrow> results c = ValidationResult_init"
  by (auto simp: init_def split: if_splits)

section \<open>Concrete inputs\<close>

definition checker0 :: checker where
  "checker0 =
     \<lparr>repo_path = ''/repo'', config_path = None, results = ValidationResult_init,
      logged = []\<rparr>"

definition env0 :: env where
  "env0 =
     \<lparr>file_validator =
        Inr [\<lparr>check = ''license_file'', message = ''No license file found'',
              status = ''fail''\<rparr>,
             \<lparr>check = ''odd'', message = ''m'', status = ''error''\<rparr>,
             \<lparr>check = ''required_file_README.md'', message = '''', status = ''pass''\<rparr>],
      build_validator = Inl ''boom'',
      code_validator = Inr [],
      security_validator =
        Inr [\<lparr>check = ''commit_signing'', message = ''w'', status = ''warning''\<rparr>],
      path_exists = (\<lambda>p. p = ''LEGAL.md'')\<rparr>"

definition env1 :: env where
  "env1 =
     \<lparr>file_validator =
        Inr [\<lparr>check = ''license_file'', message = ''No license file found'',
              status = ''fail''\<rparr>,
             \<lparr>check = ''required_file_README.md'',
              message = ''Required file exists: README.md'', status = ''pass''\<rparr>],
      build_validator = Inr [],
      code_validator = Inr [],
      security_validator =
        Inr [\<lparr>check = ''commit_signing'', message = ''w'', status = ''warning''\<rparr>],
      path_exists = (\<lambda>p. p = ''LEGAL.md'')\<rparr>"

definition env_odd :: env where
  "env_odd =
     \<lparr>file_validator = Inr [\<lparr>check = ''odd'', message = ''m'', status = ''error''\<rparr>],
      build_validator = Inr [], code_validator = Inr [], security_validator = Inr [],
      path_exists = (\<lambda>p. False)\<rparr>"

section \<open>Records with an unrecognised status\<close>

definition known_status :: "string \<Rightarrow> bool" where
  "known_status st \<longleftrightarrow> st = ''pass'' \<or> st = ''fail'' \<or> st = ''warning''"

lemma dispatch_unknown: "\<not> known_status (status res) \<Longrightarrow> dispatch r res = r"
  by (simp add: dispatch_def known_status_def)

text \<open>
  C2, as the code has it. A record whose status is none of pass, fail, warning is skipped by
  each of the four normalisation loops: the report and the log are exactly what they would
  be had the module not returned that record, so the record reaches no bucket, nothing is
  logged for it and no error is recorded.
\<close>

theorem unknown_status_skipped:
  "\<not> known_status (status res) \<Longrightarrow>
     dispatch r res = r
     \<and> run_file_checks (v\<lparr>file_validator := Inr (xs @ [res] @ ys)\<rparr>) c =
         run_file_checks (v\<lparr>file_validator := Inr (xs @ ys)\<rparr>) c
     \<and> run_build_checks (v\<lparr>build_validator := Inr (xs @ [res] @ ys)\<rparr>) c =
         run_build_checks (v\<lparr>build_validator := Inr (xs @ ys)\<rparr>) c
     \<and> run_code_checks (v\<lparr>code_validator := Inr (xs @ [res] @ ys)\<rparr>) c =
         run_code_checks (v\<lparr>code_validator := Inr (xs @ ys)\<rparr>) c
     \<and> run_security_checks (v\<lparr>security_validator := Inr (xs @ [res] @ ys)\<rparr>) c =
         run_security_checks (v\<lparr>security_validator := Inr (xs @ ys)\<rparr>) c"
  by (simp add: run_file_checks_def run_build_checks_def run_code_checks_def
      run_security_checks_def run_checks_def dispatch_unknown)

theorem unknown_status_skipped_witness:
  "\<not> known_status ''error''
   \<and> logged (run_file_checks env0 checker0) = [(INFO, ''Checking file requirements...'')]
   \<and> run_file_checks env0 checker0 =
       run_file_checks
         (env0\<lparr>file_validator :=
            Inr [\<lparr>check = ''license_file'', message = ''No license file found'',
                  status = ''fail''\<rparr>,
                 \<lparr>check = ''required_file_README.md'', message = '''',
                  status = ''pass''\<rparr>]\<rparr>)
         checker0"
  using unknown_status_skipped
    [where res = "\<lparr>check = ''odd'', message = ''m'', status = ''error''\<rparr>"
      and r = ValidationResult_init and v = env0
      and xs = "[\<lparr>check = ''license_file'', message = ''No license file found'',
                  status = ''fail''\<rparr>]"
      and ys = "[\<lparr>check = ''required_file_README.md'', message = '''',
                  status = ''pass''\<rparr>]"
      and c = checker0]
  by (simp add: known_status_def env0_def run_file_checks_def run_checks_def log_rec_def
      checker0_def)

text \<open>
  C2 as stated fails: a module returning one record of status \<^verbatim>\<open>error\<close> leaves the report
  empty and the log holding only the routine INFO lines. No warning is logged, nothing is
  rejected, no error entry is made.
\<close>

theorem unknown_status_silent_counterexample:
  "results (run_file_checks env_odd checker0) = ValidationResult_init
   \<and> logged (run_file_checks env_odd checker0) = [(INFO, ''Checking file requirements...'')]
   \<and> WARNING \<notin> set (map fst (logged (check_all env_odd False checker0)))
   \<and> results (check_all env_odd False checker0) = ValidationResult_init"
  by (simp add: env_odd_def checker0_def run_file_checks_def run_build_checks_def
      run_code_checks_def run_security_checks_def run_checks_def log_rec_def dispatch_def
      check_all_def Let_def)

section \<open>A category that raises\<close>

text \<open>
  C3. A category whose \<^verbatim>\<open>validate()\<close> raises contributes exactly one entry, to the errors
  bucket, carrying the category's tag (\<^verbatim>\<open>file_requirements\<close>, \<^verbatim>\<open>build_system\<close>,
  \<^verbatim>\<open>code_standards\<close>, \<^verbatim>\<open>security\<close>) and the exception text, and nothing to the other
  buckets; whatever the other categories do, a full run appends every category's
  contribution in the order files, build, code, security (then the forensic probes).
\<close>

theorem category_exception_recorded:
  "contribution name (Inl e) =
     \<lparr>passed = [], failed = [], warnings = [], errors = [\<lparr>check = name, message = e\<rparr>]\<rparr>
   \<and> errors (results (check_all v inc c)) =
       errors (results c)
       @ errors (contribution ''file_requirements'' (file_validator v))
       @ errors (contribution ''build_system'' (build_validator v))
       @ errors (contribution ''code_standards'' (code_validator v))
       @ errors (contribution ''security'' (security_validator v))
   \<and> passed (results (check_all v inc c)) =
       passed (results c)
       @ passed (contribution ''file_requirements'' (file_validator v))
       @ passed (contribution ''build_system'' (build_validator v))
       @ passed (contribution ''code_standards'' (code_validator v))
       @ passed (contribution ''security'' (security_validator v))
       @ (if inc then passed (forensic_contribution v) else [])
   \<and> failed (results (check_all v inc c)) =
       failed (results c)
       @ failed (contribution ''file_requirements'' (file_validator v))
       @ failed (contribution ''build_system'' (build_validator v))
       @ failed (contribution ''code_standards'' (code_validator v))
       @ failed (contribution ''security'' (security_validator v))
       @ (if inc then failed (forensic_contribution v) else [])
   \<and> warnings (results (check_all v inc c)) =
       warnings (results c)
       @ warnings (contribution ''file_requirements'' (file_validator v))
       @ warnings (contribution ''build_system'' (build_validator v))
       @ warnings (contribution ''code_standards'' (code_validator v))
       @ warnings (contribution ''security'' (security_validator v))"
proof -
  have fc: "errors (forensic_contribution v) = []" "warnings (forensic_contribution v) = []"
    by (simp_all add: forensic_contribution_def)
  have ini: "passed ValidationResult_init = []" "failed ValidationResult_init = []"
    "warnings ValidationResult_init = []" "errors ValidationResult_init = []"
    by (simp_all add: ValidationResult_init_def)
  have "contribution name (Inl e) =
     \<lparr>passed = [], failed = [], warnings = [], errors = [\<lparr>check = name, message = e\<rparr>]\<rparr>"
    by (simp add: contribution_def)
  then show ?thesis
    by (simp add: check_all_results all_contribution_def merge_buckets fc ini)
qed

theorem category_exception_recorded_witness:
  "results (check_all env0 True checker0) =
     \<lparr>passed =
        [\<lparr>check = ''required_file_README.md'', message = ''Check passed''\<rparr>,
         \<lparr>check = ''forensic_file_LEGAL.md'',
          message = ''Required forensic documentation file exists: LEGAL.md''\<rparr>],
      failed =
        [\<lparr>check = ''license_file'', message = ''No license file found''\<rparr>,
         \<lparr>check = ''forensic_file_METHODOLOGY.md'',
          message = ''Missing required forensic documentation: METHODOLOGY.md''\<rparr>,
         \<lparr>check = ''forensic_file_VALIDATION.md'',
          message = ''Missing required forensic documentation: VALIDATION.md''\<rparr>],
      warnings = [\<lparr>check = ''commit_signing'', message = ''w''\<rparr>],
      errors = [\<lparr>check = ''build_system'', message = ''boom''\<rparr>]\<rparr>"
proof -
  have "passed (results checker0) = []" "failed (results checker0) = []"
    "warnings (results checker0) = []" "errors (results checker0) = []"
    by (simp_all add: checker0_def ValidationResult_init_def)
  then show ?thesis
    using category_exception_recorded [where name = "''build_system''" and e = "''boom''"
        and v = env0 and inc = True and c = checker0]
    by (intro ValidationResult.equality)
       (simp_all add: env0_def contribution_def with_status_def pass_entry_def
          plain_entry_def forensic_contribution_def forensic_files_def)
qed

section \<open>Repeated runs\<close>

text \<open>
  C10. Each \<open>add_*\<close> appends one entry to its own bucket and leaves the other three as they
  were. For any two entry points \<open>f\<close> then \<open>g\<close> called on one checker, every bucket after
  \<open>f\<close> is a prefix of the same bucket after \<open>g\<close>; and calling \<open>f\<close> twice appends the
  entries \<open>d\<close> it added the first time a second time.
\<close>

theorem results_accumulate:
  "passed (add_pass r n m) =
      passed r @ [\<lparr>check = n, message = (if m = [] then ''Check passed'' else m)\<rparr>]
   \<and> failed (add_pass r n m) = failed r \<and> warnings (add_pass r n m) = warnings r
   \<and> errors (add_pass r n m) = errors r
   \<and> failed (add_fail r n m) = failed r @ [\<lparr>check = n, message = m\<rparr>]
   \<and> passed (add_fail r n m) = passed r \<and> warnings (add_fail r n m) = warnings r
   \<and> errors (add_fail r n m) = errors r
   \<and> warnings (add_warning r n m) = warnings r @ [\<lparr>check = n, message = m\<rparr>]
   \<and> passed (add_warning r n m) = passed r \<and> failed (add_warning r n m) = failed r
   \<and> errors (add_warning r n m) = errors r
   \<and> errors (add_error r n m) = errors r @ [\<lparr>check = n, message = m\<rparr>]
   \<and> passed (add_error r n m) = passed r \<and> failed (add_error r n m) = failed r
   \<and> warnings (add_error r n m) = warnings r
   \<and> (\<forall>f \<in> set (entry_points v). \<forall>g \<in> set (entry_points v).
         prefix (passed (results (f c))) (passed (results (g (f c))))
       \<and> prefix (failed (results (f c))) (failed (results (g (f c))))
       \<and> prefix (warnings (results (f c))) (warnings (results (g (f c))))
       \<and> prefix (errors (results (f c))) (errors (results (g (f c)))))
   \<and> (\<forall>f \<in> set (entry_points v). \<exists>d.
         results (f c) = merge (results c) d
       \<and> results (f (f c)) = merge (merge (results c) d) d)"
proof -
  have adds: "passed (add_pass r n m) =
      passed r @ [\<lparr>check = n, message = (if m = [] then ''Check passed'' else m)\<rparr>]
   \<and> failed (add_pass r n m) = failed r \<and> warnings (add_pass r n m) = warnings r
   \<and> errors (add_pass r n m) = errors r
   \<and> failed (add_fail r n m) = failed r @ [\<lparr>check = n, message = m\<rparr>]
   \<and> passed (add_fail r n m) = passed r \<and> warnings (add_fail r n m) = warnings r
   \<and> errors (add_fail r n m) = errors r
   \<and> warnings (add_warning r n m) = warnings r @ [\<lparr>check = n, message = m\<rparr>]
   \<and> passed (add_warning r n m) = passed r \<and> failed (add_warning r n m) = failed r
   \<and> errors (add_warning r n m) = errors r
   \<and> errors (add_error r n m) = errors r @ [\<lparr>check = n, message = m\<rparr>]
   \<and> passed (add_error r n m) = passed r \<and> failed (add_error r n m) = failed r
   \<and> warnings (add_error r n m) = warnings r"
    by (simp add: add_pass_def add_fail_def add_warning_def add_error_def)
  have succ: "prefix (passed (results (f c))) (passed (results (g (f c))))
       \<and> prefix (failed (results (f c))) (failed (results (g (f c))))
       \<and> prefix (warnings (results (f c))) (warnings (results (g (f c))))
       \<and> prefix (errors (results (f c))) (errors (results (g (f c))))"
    if "g \<in> set (entry_points v)" for f g
  proof -
    from entry_point_adds [OF that] obtain d where "\<And>c. results (g c) = merge (results c) d"
      by blast
    then show ?thesis by (simp add: merge_buckets)
  qed
  have twice: "\<exists>d. results (f c) = merge (results c) d
       \<and> results (f (f c)) = merge (merge (results c) d) d"
    if "f \<in> set (entry_points v)" for f
  proof -
    from entry_point_adds [OF that] obtain d where d: "\<And>c. results (f c) = merge (results c) d"
      by blast
    have "results (f (f c)) = merge (results (f c)) d" by (rule d)
    with d [of c] show ?thesis by auto
  qed
  from adds succ twice show ?thesis by blast
qed

theorem results_accumulate_witness:
  "prefix (failed (results (check_files env1 checker0)))
      (failed (results (check_forensic env1 (check_files env1 checker0))))
   \<and> (\<exists>d. results (check_files env1 checker0) = merge (results checker0) d
       \<and> results (check_files env1 (check_files env1 checker0)) =
           merge (merge (results checker0) d) d)"
proof -
  have f: "check_files env1 \<in> set (entry_points env1)"
    and g: "check_forensic env1 \<in> set (entry_points env1)"
    by (simp_all add: entry_points_def)
  from results_accumulate [of _ _ _ env1 checker0] f g show ?thesis by blast
qed

section \<open>File requirements (core/file_requirements.py)\<close>








section \<open>Build system (core/build_system.py)\<close>

text \<open>
  The value \<^verbatim>\<open>json.load\<close> returns. An object is the parsed \<^verbatim>\<open>dict\<close>, kept as an association
  list in which a key's first pair is its binding. Numbers are never inspected by the
  code; integers stand for them.
\<close>

datatype json =
  JNull | JBool bool | JNum int | JStr string | JArr "json list" | JObj "(string \<times> json) list"

text \<open>
  Texts that the interpreter, not the program, determines: \<^verbatim>\<open>str(v)\<close> of a value that is
  not a string, and \<^verbatim>\<open>str(e)\<close> of the \<^verbatim>\<open>AttributeError\<close> of \<^verbatim>\<open>v.get\<close>, of the \<^verbatim>\<open>TypeError\<close>
  of \<^verbatim>\<open>x in v\<close> and of the \<^verbatim>\<open>TypeError\<close> of \<^verbatim>\<open>v[key]\<close>.
\<close>

record python =
  str_of :: "json \<Rightarrow> string"
  no_attribute_get :: "json \<Rightarrow> string"
  not_iterable :: "json \<Rightarrow> string"
  bad_index :: "json \<Rightarrow> string"

text \<open>The expressions of the \<^verbatim>\<open>try\<close> body; \<open>Inl\<close> is the text of the exception raised.\<close>

definition py_get :: "python \<Rightarrow> json \<Rightarrow> string \<Rightarrow> json \<Rightarrow> string + json" where
  "py_get py d key dflt =
     (case d of
        JObj kvs \<Rightarrow> (case map_of kvs key of Some v \<Rightarrow> Inr v | None \<Rightarrow> Inr dflt)
      | _ \<Rightarrow> Inl (no_attribute_get py d))"

definition py_in :: "python \<Rightarrow> string \<Rightarrow> json \<Rightarrow> string + bool" where
  "py_in py x v =
     (case v of
        JObj kvs \<Rightarrow> Inr (x \<in> set (map fst kvs))
      | JArr xs \<Rightarrow> Inr (JStr x \<in> set xs)
      | JStr s \<Rightarrow> Inr (sublist x s)
      | _ \<Rightarrow> Inl (not_iterable py v))"

definition py_getitem :: "python \<Rightarrow> json \<Rightarrow> string \<Rightarrow> string + json" where
  "py_getitem py v key =
     (case v of
        JObj kvs \<Rightarrow>
          (case map_of kvs key of
             Some x \<Rightarrow> Inr x
           | None \<Rightarrow> Inl ([CHR 0x27] @ key @ [CHR 0x27]))
      | _ \<Rightarrow> Inl (bad_index py v))"

definition py_str :: "python \<Rightarrow> json \<Rightarrow> string" where
  "py_str py v = (case v of JStr s \<Rightarrow> s | _ \<Rightarrow> str_of py v)"

definition REQUIRED_NPM_PACKAGES :: "(string \<times> string) list" where
  "REQUIRED_NPM_PACKAGES =
     [(''husky'', ''^9.1.7''), (''lint-staged'', ''^15.5.0''), (''prettier'', ''^3.5.3'')]"

definition REQUIRED_NPM_SCRIPTS :: "(string \<times> string) list" where
  "REQUIRED_NPM_SCRIPTS = [(''prepare'', ''husky''), (''pre-commit'', ''lint-staged'')]"

text \<open>
  What \<^verbatim>\<open>open\<close> and \<^verbatim>\<open>json.load\<close> do with \<^verbatim>\<open>package.json\<close>: a \<^verbatim>\<open>JSONDecodeError\<close>, another
  exception (the file cannot be opened or decoded), or the parsed value.
\<close>

datatype load_result = JSONDecodeError string | OtherError string | Loaded json

record build_env =
  package_json :: load_result
  lintstagedrc_exists :: bool

text \<open>
  The two loops of the \<^verbatim>\<open>try\<close> body. \<open>acc\<close> is the list \<^verbatim>\<open>results\<close> built so far; an exception
  leaves it as it is and ends the body, so the loops return the list and the text of the
  exception, if any.
\<close>

fun packages_loop ::
  "python \<Rightarrow> json \<Rightarrow> (string \<times> string) list \<Rightarrow> outcome list \<Rightarrow> outcome list \<times> string option"
  where
  "packages_loop py dev_deps [] acc = (acc, None)"
| "packages_loop py dev_deps ((package, required_version) # rest) acc =
     (case py_in py package dev_deps of
        Inl e \<Rightarrow> (acc, Some e)
      | Inr True \<Rightarrow>
          packages_loop py dev_deps rest
            (acc @
             [\<lparr>check = ''npm_package_'' @ package,
               message = ''Required package '' @ package @ '' found in devDependencies'',
               status = ''pass''\<rparr>])
      | Inr False \<Rightarrow>
          packages_loop py dev_deps rest
            (acc @
             [\<lparr>check = ''npm_package_'' @ package,
               message = ''Missing required package: '' @ package @ '' '' @ required_version,
               status = ''fail''\<rparr>]))"

fun scripts_loop ::
  "python \<Rightarrow> json \<Rightarrow> (string \<times> string) list \<Rightarrow> outcome list \<Rightarrow> outcome list \<times> string option"
  where
  "scripts_loop py scripts [] acc = (acc, None)"
| "scripts_loop py scripts ((script_name, expected_value) # rest) acc =
     (case py_in py script_name scripts of
        Inl e \<Rightarrow> (acc, Some e)
      | Inr False \<Rightarrow>
          scripts_loop py scripts rest
            (acc @
             [\<lparr>check = ''npm_script_'' @ script_name,
               message = ''Missing required script: '' @ script_name,
               status = ''fail''\<rparr>])
      | Inr True \<Rightarrow>
          (case py_getitem py scripts script_name of
             Inl e \<Rightarrow> (acc, Some e)
           | Inr v \<Rightarrow>
               if v = JStr expected_value then
                 scripts_loop py scripts rest
                   (acc @
                    [\<lparr>check = ''npm_script_'' @ script_name,
                      message =
                        ''Required script '' @ [CHR 0x27] @ script_name @ [CHR 0x27]
                        @ '' configured correctly'',
                      status = ''pass''\<rparr>])
               else
                 scripts_loop py scripts rest
                   (acc @
                    [\<lparr>check = ''npm_script_'' @ script_name,
                      message =
                        ''Script '' @ [CHR 0x27] @ script_name @ [CHR 0x27]
                        @ '' exists but value differs: expected '' @ [CHR 0x27]
                        @ expected_value @ [CHR 0x27] @ '', got '' @ [CHR 0x27]
                        @ py_str py v @ [CHR 0x27],
                      status = ''warning''\<rparr>])))"

definition npm_try_body :: "python \<Rightarrow> build_env \<Rightarrow> json \<Rightarrow> outcome list \<times> string option" where
  "npm_try_body py env package_data =
     (case py_get py package_data ''devDependencies'' (JObj []) of
        Inl e \<Rightarrow> ([], Some e)
      | Inr dev_deps \<Rightarrow>
          (case packages_loop py dev_deps REQUIRED_NPM_PACKAGES [] of
             (acc, Some e) \<Rightarrow> (acc, Some e)
           | (acc, None) \<Rightarrow>
               (case py_get py package_data ''scripts'' (JObj []) of
                  Inl e \<Rightarrow> (acc, Some e)
                | Inr scripts \<Rightarrow>
                    (case scripts_loop py scripts REQUIRED_NPM_SCRIPTS acc of
                       (acc, Some e) \<Rightarrow> (acc, Some e)
                     | (acc, None) \<Rightarrow>
                         (case py_in py ''lint-staged'' package_data of
                            Inl e \<Rightarrow> (acc, Some e)
                          | Inr found \<Rightarrow>
                              if found \<or> lintstagedrc_exists env then
                                (acc @
                                 [\<lparr>check = ''lint_staged_config'',
                                   message = ''lint-staged configuration found'',
                                   status = ''pass''\<rparr>], None)
                              else
                                (acc @
                                 [\<lparr>check = ''lint_staged_config'',
                                   message = ''No lint-staged configuration found'',
                                   status = ''warning''\<rparr>], None))))))"

definition check_npm_requirements :: "python \<Rightarrow> build_env \<Rightarrow> outcome list" where
  "check_npm_requirements py env =
     (case package_json env of
        JSONDecodeError e \<Rightarrow>
          [\<lparr>check = ''package_json'', message = ''Invalid package.json: '' @ e,
            status = ''fail''\<rparr>]
      | OtherError e \<Rightarrow>
          [\<lparr>check = ''package_json'', message = ''Error reading package.json: '' @ e,
            status = ''fail''\<rparr>]
      | Loaded package_data \<Rightarrow>
          (case npm_try_body py env package_data of
             (acc, None) \<Rightarrow> acc
           | (acc, Some e) \<Rightarrow>
               acc @
               [\<lparr>check = ''package_json'', message = ''Error reading package.json: '' @ e,
                 status = ''fail''\<rparr>]))"

text \<open>
  Vocabulary for C6: the values on which \<^verbatim>\<open>x in v\<close> does not raise, and the status the
  claim names for one required script, given the pairs \<open>sc\<close> of the manifest's scripts
  object.
\<close>

definition supports_in :: "json \<Rightarrow> bool" where
  "supports_in v = (case v of JObj _ \<Rightarrow> True | JArr _ \<Rightarrow> True | JStr _ \<Rightarrow> True | _ \<Rightarrow> False)"

definition script_status :: "(string \<times> json) list \<Rightarrow> string \<Rightarrow> string \<Rightarrow> string" where
  "script_status sc script_name expected_value =
     (case map_of sc script_name of
        None \<Rightarrow> ''fail''
      | Some v \<Rightarrow> if v = JStr expected_value then ''pass'' else ''warning'')"

definition is_script_check :: "string \<Rightarrow> outcome \<Rightarrow> bool" where
  "is_script_check script_name res \<longleftrightarrow> check res = ''npm_script_'' @ script_name"

lemma py_in_supported: "supports_in v \<Longrightarrow> \<exists>b. py_in py x v = Inr b"
  by (cases v) (simp_all add: supports_in_def py_in_def)

lemma packages_loop_supported:
  "supports_in dev_deps \<Longrightarrow>
     \<exists>rs. packages_loop py dev_deps items acc = (acc @ rs, None)
        \<and> filter (is_script_check n) rs = []"
proof (induction items arbitrary: acc)
  case Nil
  then show ?case by simp
next
  case (Cons item items)
  obtain package required_version where item: "item = (package, required_version)"
    by (cases item)
  from py_in_supported [OF Cons.prems] obtain b where b: "py_in py package dev_deps = Inr b"
    by blast
  define r where "r =
    (if b then
       \<lparr>check = ''npm_package_'' @ package,
        message = ''Required package '' @ package @ '' found in devDependencies'',
        status = ''pass''\<rparr>
     else
       \<lparr>check = ''npm_package_'' @ package,
        message = ''Missing required package: '' @ package @ '' '' @ required_version,
        status = ''fail''\<rparr>)"
  have step: "packages_loop py dev_deps (item # items) acc =
      packages_loop py dev_deps items (acc @ [r])"
    by (simp add: item b r_def)
  have nr: "\<not> is_script_check n r"
    by (simp add: r_def is_script_check_def)
  from Cons.IH [OF Cons.prems, of "acc @ [r]"] obtain rs where
    rs: "packages_loop py dev_deps items (acc @ [r]) = ((acc @ [r]) @ rs, None)"
      "filter (is_script_check n) rs = []"
    by blast
  have "packages_loop py dev_deps (item # items) acc = (acc @ (r # rs), None)"
    using step rs(1) by simp
  moreover have "filter (is_script_check n) (r # rs) = []"
    using nr rs(2) by simp
  ultimately show ?case by blast
qed

text \<open>The record one iteration of the scripts loop appends when \<open>scripts\<close> is an object.\<close>

definition script_result :: "python \<Rightarrow> (string \<times> json) list \<Rightarrow> string \<times> string \<Rightarrow> outcome" where
  "script_result py sc item =
     (case item of (script_name, expected_value) \<Rightarrow>
        (case map_of sc script_name of
           None \<Rightarrow>
             \<lparr>check = ''npm_script_'' @ script_name,
              message = ''Missing required script: '' @ script_name,
              status = ''fail''\<rparr>
         | Some v \<Rightarrow>
             if v = JStr expected_value then
               \<lparr>check = ''npm_script_'' @ script_name,
                message =
                  ''Required script '' @ [CHR 0x27] @ script_name @ [CHR 0x27]
                  @ '' configured correctly'',
                status = ''pass''\<rparr>
             else
               \<lparr>check = ''npm_script_'' @ script_name,
                message =
                  ''Script '' @ [CHR 0x27] @ script_name @ [CHR 0x27]
                  @ '' exists but value differs: expected '' @ [CHR 0x27]
                  @ expected_value @ [CHR 0x27] @ '', got '' @ [CHR 0x27]
                  @ py_str py v @ [CHR 0x27],
                status = ''warning''\<rparr>))"

lemma scripts_loop_object:
  "scripts_loop py (JObj sc) items acc =
     (acc @ map (script_result py sc) items, None)"
proof (induction items arbitrary: acc)
  case Nil
  then show ?case by simp
next
  case (Cons item items)
  obtain script_name expected_value where item: "item = (script_name, expected_value)"
    by (cases item)
  have step: "scripts_loop py (JObj sc) (item # items) acc =
      scripts_loop py (JObj sc) items (acc @ [script_result py sc item])"
  proof (cases "map_of sc script_name")
    case None
    then have "script_name \<notin> fst ` set sc"
      by (simp add: map_of_eq_None_iff)
    with None show ?thesis
      by (simp add: item py_in_def script_result_def)
  next
    case (Some v)
    then have "script_name \<in> fst ` set sc"
      using map_of_eq_None_iff [of sc script_name] by simp
    with Some show ?thesis
      by (simp add: item py_in_def py_getitem_def script_result_def)
  qed
  show ?case
    by (simp only: step Cons.IH) simp
qed

lemma script_result_status:
  "status (script_result py sc (script_name, expected_value)) =
     script_status sc script_name expected_value"
  by (simp add: script_result_def script_status_def split: option.splits)

lemma script_result_check:
  "check (script_result py sc (script_name, expected_value)) = ''npm_script_'' @ script_name"
  by (simp add: script_result_def split: option.splits)

lemma required_scripts_filter:
  assumes "(script_name, expected_value) \<in> set REQUIRED_NPM_SCRIPTS"
  shows "map status
      (filter (is_script_check script_name) (map (script_result py sc) REQUIRED_NPM_SCRIPTS)) =
      [script_status sc script_name expected_value]"
proof -
  from assms consider "script_name = ''prepare''" "expected_value = ''husky''"
    | "script_name = ''pre-commit''" "expected_value = ''lint-staged''"
    by (auto simp: REQUIRED_NPM_SCRIPTS_def)
  then show ?thesis
  proof cases
    case 1
    then show ?thesis
      by (simp add: REQUIRED_NPM_SCRIPTS_def is_script_check_def script_result_check
          script_result_status)
  next
    case 2
    then show ?thesis
      by (simp add: REQUIRED_NPM_SCRIPTS_def is_script_check_def script_result_check
          script_result_status)
  qed
qed

text \<open>
  C6, as the code has it. Let the manifest parse to an object whose \<^verbatim>\<open>devDependencies\<close>
  entry, if present, is an object, an array or a string, and whose \<^verbatim>\<open>scripts\<close> entry is
  an object with pairs \<open>sc\<close> (or is absent, \<open>sc\<close> then being empty). Then for every required
  script the check returns exactly one record \<^verbatim>\<open>npm_script_<name>\<close>: pass when the script
  is declared with exactly the expected string, warning when it is declared with any other
  value, fail when it is not declared.
\<close>

theorem npm_script_status:
  assumes "package_json env = Loaded (JObj kvs)"
    and "\<forall>d. map_of kvs ''devDependencies'' = Some d \<longrightarrow> supports_in d"
    and "map_of kvs ''scripts'' = Some (JObj sc) \<or> map_of kvs ''scripts'' = None \<and> sc = []"
    and "(script_name, expected_value) \<in> set REQUIRED_NPM_SCRIPTS"
  shows "map status
      (filter (is_script_check script_name) (check_npm_requirements py env)) =
      [script_status sc script_name expected_value]"
proof -
  obtain dev_deps where dd: "py_get py (JObj kvs) ''devDependencies'' (JObj []) = Inr dev_deps"
    and sup: "supports_in dev_deps"
    using assms(2) by (cases "map_of kvs ''devDependencies''") (auto simp: py_get_def supports_in_def)
  from packages_loop_supported [OF sup, where n = script_name and py = py
      and items = REQUIRED_NPM_PACKAGES and acc = "[]"]
  obtain rs where rs: "packages_loop py dev_deps REQUIRED_NPM_PACKAGES [] = (rs, None)"
    "filter (is_script_check script_name) rs = []"
    by auto
  have sg: "py_get py (JObj kvs) ''scripts'' (JObj []) = Inr (JObj sc)"
    using assms(3) by (auto simp: py_get_def)
  obtain found where f: "py_in py ''lint-staged'' (JObj kvs) = Inr found"
    by (simp add: py_in_def)
  define l where "l =
    (if found \<or> lintstagedrc_exists env then
       \<lparr>check = ''lint_staged_config'', message = ''lint-staged configuration found'',
        status = ''pass''\<rparr>
     else
       \<lparr>check = ''lint_staged_config'', message = ''No lint-staged configuration found'',
        status = ''warning''\<rparr>)"
  have nl: "\<not> is_script_check script_name l"
    by (simp add: l_def is_script_check_def)
  have "npm_try_body py env (JObj kvs) =
      (rs @ map (script_result py sc) REQUIRED_NPM_SCRIPTS @ [l], None)"
    by (simp add: npm_try_body_def dd rs(1) sg scripts_loop_object f l_def)
  then have "check_npm_requirements py env =
      rs @ map (script_result py sc) REQUIRED_NPM_SCRIPTS @ [l]"
    by (simp add: check_npm_requirements_def assms(1))
  then show ?thesis
    using rs(2) nl required_scripts_filter [OF assms(4), where py = py and sc = sc] by simp
qed

definition py0 :: python where
  "py0 =
     \<lparr>str_of = (\<lambda>v. ''<value>''), no_attribute_get = (\<lambda>v. ''no attribute get''),
      not_iterable = (\<lambda>v. ''not iterable''), bad_index = (\<lambda>v. ''bad index'')\<rparr>"

definition manifest_ok :: build_env where
  "manifest_ok =
     \<lparr>package_json =
        Loaded (JObj [(''devDependencies'', JObj [(''husky'', JStr ''^9.1.7'')]),
                      (''scripts'', JObj [(''prepare'', JStr ''husky'')])]),
      lintstagedrc_exists = False\<rparr>"

definition manifest_null_deps :: build_env where
  "manifest_null_deps =
     \<lparr>package_json =
        Loaded (JObj [(''devDependencies'', JNull),
                      (''scripts'', JObj [(''prepare'', JStr ''husky''),
                                          (''pre-commit'', JStr ''lint-staged'')])]),
      lintstagedrc_exists = False\<rparr>"

theorem npm_script_status_witness:
  "map status (filter (is_script_check ''prepare'') (check_npm_requirements py0 manifest_ok)) =
     [''pass'']
   \<and> map status
       (filter (is_script_check ''pre-commit'') (check_npm_requirements py0 manifest_ok)) =
     [''fail'']"
proof -
  have 1: "package_json manifest_ok =
      Loaded (JObj [(''devDependencies'', JObj [(''husky'', JStr ''^9.1.7'')]),
                    (''scripts'', JObj [(''prepare'', JStr ''husky'')])])"
    by (simp add: manifest_ok_def)
  have 2: "\<forall>d. map_of [(''devDependencies'', JObj [(''husky'', JStr ''^9.1.7'')]),
                    (''scripts'', JObj [(''prepare'', JStr ''husky'')])] ''devDependencies''
               = Some d \<longrightarrow> supports_in d"
    by (simp add: supports_in_def)
  have 3: "map_of [(''devDependencies'', JObj [(''husky'', JStr ''^9.1.7'')]),
                    (''scripts'', JObj [(''prepare'', JStr ''husky'')])] ''scripts''
             = Some (JObj [(''prepare'', JStr ''husky'')])
           \<or> map_of [(''devDependencies'', JObj [(''husky'', JStr ''^9.1.7'')]),
                    (''scripts'', JObj [(''prepare'', JStr ''husky'')])] ''scripts'' = None
             \<and> [(''prepare'', JStr ''husky'')] = []"
    by simp
  have 4: "(''prepare'', ''husky'') \<in> set REQUIRED_NPM_SCRIPTS"
    and 5: "(''pre-commit'', ''lint-staged'') \<in> set REQUIRED_NPM_SCRIPTS"
    by (simp_all add: REQUIRED_NPM_SCRIPTS_def)
  from npm_script_status [OF 1 2 3 4, of py0] npm_script_status [OF 1 2 3 5, of py0]
  show ?thesis by (simp add: script_status_def)
qed

text \<open>
  C6 as stated fails: this manifest parses, and declares both required scripts with exactly
  the expected values, yet its \<^verbatim>\<open>devDependencies\<close> is \<^verbatim>\<open>null\<close>, the membership test
  raises, and the check returns the single record \<^verbatim>\<open>package_json\<close> with status fail.
\<close>

theorem npm_script_null_deps_counterexample:
  "check_npm_requirements py0 manifest_null_deps =
     [\<lparr>check = ''package_json'', message = ''Error reading package.json: not iterable'',
       status = ''fail''\<rparr>]
   \<and> filter (is_script_check ''prepare'') (check_npm_requirements py0 manifest_null_deps) = []"
  by (simp add: check_npm_requirements_def manifest_null_deps_def npm_try_body_def py_get_def
      REQUIRED_NPM_PACKAGES_def py_in_def py0_def is_script_check_def)

section \<open>Code standards (core/code_standards.py)\<close>

subsection \<open>What the validator observes\<close>

text \<open>
  A path under the repository root: its components relative to the root, and the bytes that
  \<^verbatim>\<open>open(path, "rb").read()\<close> returns (\<open>None\<close> when opening or reading raises, as for a
  directory). For a file whose bytes are not valid UTF-8, \<open>lines_before_error\<close> is the
  number of lines that iterating the text-mode file yields before the decoder raises; it
  depends on the text layer's buffering and is bounded by the complete lines of the valid
  part of the file.
\<close>

record path_entry =
  rel_parts :: "string list"
  raw :: "nat list option"
  lines_before_error :: nat

text \<open>
  The repository as one run sees it: the components of the resolved root path, every path
  below the root in the order in which \<^verbatim>\<open>rglob\<close> walks the tree, and the order in which the
  running interpreter iterates the Python set \<^verbatim>\<open>extensions\<close> (the language leaves it open).
\<close>

record repo =
  root_parts :: "string list"
  tree :: "path_entry list"
  ext_iter :: "string list"

definition MAX_LINE_LENGTH :: nat where
  "MAX_LINE_LENGTH = 79"

definition LANGUAGE_EXTENSIONS :: "(string \<times> string list) list" where
  "LANGUAGE_EXTENSIONS =
     [(''python'', [''.py'']),
      (''c'', [''.c'', ''.h'']),
      (''cpp'', [''.cpp'', ''.cc'', ''.cxx'', ''.hpp'', ''.hh'']),
      (''javascript'', [''.js'', ''.jsx'']),
      (''typescript'', [''.ts'', ''.tsx'']),
      (''go'', [''.go'']),
      (''java'', [''.java'']),
      (''shell'', [''.sh'', ''.bash'']),
      (''perl'', [''.pl'', ''.pm'']),
      (''php'', [''.php'']),
      (''powershell'', [''.ps1'', ''.psm1'', ''.psd1'']),
      (''html'', [''.html'', ''.htm'']),
      (''css'', [''.css'', ''.scss'', ''.less'']),
      (''awk'', [''.awk''])]"

text \<open>The members of the set \<^verbatim>\<open>extensions\<close>, in the order of their insertion.\<close>

definition extensions :: "string list" where
  "extensions = remdups (concat (map snd LANGUAGE_EXTENSIONS))"

subsection \<open>Paths (pathlib, POSIX flavour)\<close>

definition path_name :: "path_entry \<Rightarrow> string" where
  "path_name p = (if rel_parts p = [] then [] else last (rel_parts p))"

text \<open>
  \<^verbatim>\<open>PurePath.suffix\<close>: with \<open>i\<close> the index of the last dot of the name, the name from \<open>i\<close> on
  when \<open>0 < i < len(name) - 1\<close>, otherwise the empty string.
\<close>

definition py_suffix :: "string \<Rightarrow> string" where
  "py_suffix nm =
     (if CHR ''.'' \<notin> set nm then []
      else let i = length nm - 1 - length (takeWhile (\<lambda>c. c \<noteq> CHR ''.'') (rev nm))
           in if 0 < i \<and> i < length nm - 1 then drop i nm else [])"

definition ends_with :: "string \<Rightarrow> string \<Rightarrow> bool" where
  "ends_with s e \<longleftrightarrow> length e \<le> length s \<and> drop (length s - length e) s = e"

text \<open>\<^verbatim>\<open>repo_path.rglob("*" + ext)\<close>: the names are matched with case.\<close>

definition rglob :: "repo \<Rightarrow> string \<Rightarrow> path_entry list" where
  "rglob r ext = filter (\<lambda>p. ends_with (path_name p) ext) (tree r)"

fun join :: "string \<Rightarrow> string list \<Rightarrow> string" where
  "join sep [] = []"
| "join sep [x] = x"
| "join sep (x # y # ys) = x @ sep @ join sep (y # ys)"

text \<open>\<^verbatim>\<open>str(file_path.relative_to(self.repo_path))\<close>\<close>

definition rel_path :: "path_entry \<Rightarrow> string" where
  "rel_path p = join ''/'' (rel_parts p)"

definition excluded_dirs :: "string list" where
  "excluded_dirs =
     [''.git'', ''node_modules'', ''vendor'', ''venv'', ''.venv'', ''dist'', ''build'']"

text \<open>\<^verbatim>\<open>file_path.parts\<close> are those of the absolute path, the root's own included.\<close>

definition get_source_files :: "repo \<Rightarrow> path_entry list" where
  "get_source_files r =
     filter
       (\<lambda>p. \<not> list_ex (\<lambda>excluded. excluded \<in> set (root_parts r @ rel_parts p)) excluded_dirs)
       (concat (map (rglob r) (ext_iter r)))"

subsection \<open>Reading files as text\<close>

definition cont :: "nat \<Rightarrow> bool" where
  "cont b \<longleftrightarrow> 128 \<le> b \<and> b \<le> 191"

text \<open>
  The strict UTF-8 decoder. \<open>utf8_seq\<close> decodes the sequence at the head of the input: the
  code point and the bytes left, or \<open>None\<close> when the head is ill formed. \<open>utf8_decode\<close>
  gives the code points decoded before the first ill-formed sequence, and whether the whole
  input was well formed.
\<close>

definition utf8_seq :: "nat list \<Rightarrow> (nat \<times> nat list) option" where
  "utf8_seq bs =
     (case bs of
        [] \<Rightarrow> None
      | b0 # t \<Rightarrow>
          if b0 < 128 then Some (b0, t)
          else if 194 \<le> b0 \<and> b0 \<le> 223 then
            (case t of
               b1 # r \<Rightarrow>
                 if cont b1 then Some ((b0 - 192) * 64 + (b1 - 128), r) else None
             | _ \<Rightarrow> None)
          else if 224 \<le> b0 \<and> b0 \<le> 239 then
            (case t of
               b1 # b2 # r \<Rightarrow>
                 if (if b0 = 224 then 160 else 128) \<le> b1
                    \<and> b1 \<le> (if b0 = 237 then 159 else 191) \<and> cont b2
                 then Some ((b0 - 224) * 4096 + (b1 - 128) * 64 + (b2 - 128), r)
                 else None
             | _ \<Rightarrow> None)
          else if 240 \<le> b0 \<and> b0 \<le> 244 then
            (case t of
               b1 # b2 # b3 # r \<Rightarrow>
                 if (if b0 = 240 then 144 else 128) \<le> b1
                    \<and> b1 \<le> (if b0 = 244 then 143 else 191) \<and> cont b2 \<and> cont b3
                 then
                   Some ((b0 - 240) * 262144 + (b1 - 128) * 4096 + (b2 - 128) * 64
                         + (b3 - 128), r)
                 else None
             | _ \<Rightarrow> None)
          else None)"

lemma utf8_seq_shorter: "utf8_seq bs = Some (c, r) \<Longrightarrow> length r < length bs"
  by (auto simp: utf8_seq_def split: list.splits if_splits)

function utf8_decode :: "nat list \<Rightarrow> nat list \<times> bool" where
  "utf8_decode [] = ([], True)"
| "utf8_decode (b # bs) =
     (case utf8_seq (b # bs) of
        None \<Rightarrow> ([], False)
      | Some (c, r) \<Rightarrow> (case utf8_decode r of (cs, ok) \<Rightarrow> (c # cs, ok)))"
  by pat_completeness auto
termination
  by (relation "measure length") (auto dest: utf8_seq_shorter)

text \<open>Universal newlines: \<^verbatim>\<open>\r\n\<close> and a lone \<^verbatim>\<open>\r\<close> are read as \<^verbatim>\<open>\n\<close>.\<close>

fun universal_newlines :: "nat list \<Rightarrow> nat list" where
  "universal_newlines [] = []"
| "universal_newlines (c # cs) =
     (if c = 13 then
        (case cs of
           [] \<Rightarrow> [10]
         | d # ds \<Rightarrow>
             if d = 10 then 10 # universal_newlines ds else 10 # universal_newlines cs)
      else c # universal_newlines cs)"

text \<open>The lines of a text, each with its terminating \<^verbatim>\<open>\n\<close> when it has one.\<close>

fun text_lines :: "nat list \<Rightarrow> nat list list" where
  "text_lines [] = []"
| "text_lines (c # cs) =
     (if c = 10 then [10] # text_lines cs
      else (case text_lines cs of [] \<Rightarrow> [[c]] | l # ls \<Rightarrow> (c # l) # ls))"

text \<open>\<^verbatim>\<open>f.read()\<close> on the file opened in text mode as UTF-8; \<open>None\<close> when it raises.\<close>

definition read_text :: "path_entry \<Rightarrow> nat list option" where
  "read_text p =
     (case raw p of
        None \<Rightarrow> None
      | Some bs \<Rightarrow>
          (case utf8_decode bs of
             (cs, ok) \<Rightarrow> if ok then Some (universal_newlines cs) else None))"

text \<open>
  The lines that the body of \<^verbatim>\<open>for line in f\<close> receives: all of them for a readable file;
  for undecodable content the lines handed out before the decoder raises.
\<close>

definition iter_lines :: "path_entry \<Rightarrow> nat list list" where
  "iter_lines p =
     (case raw p of
        None \<Rightarrow> []
      | Some bs \<Rightarrow>
          (case utf8_decode bs of
             (cs, ok) \<Rightarrow>
               if ok then text_lines (universal_newlines cs)
               else take (lines_before_error p)
                      (filter (\<lambda>l. l \<noteq> [] \<and> last l = 10)
                         (text_lines (universal_newlines cs)))))"

text \<open>\<^verbatim>\<open>str.isspace\<close>, by code point.\<close>

definition is_space :: "nat \<Rightarrow> bool" where
  "is_space c \<longleftrightarrow>
     (9 \<le> c \<and> c \<le> 13) \<or> (28 \<le> c \<and> c \<le> 32) \<or> c = 133 \<or> c = 160 \<or> c = 5760
     \<or> (8192 \<le> c \<and> c \<le> 8202) \<or> c = 8232 \<or> c = 8233 \<or> c = 8239 \<or> c = 8287
     \<or> c = 12288"

text \<open>\<^verbatim>\<open>line.rstrip()\<close> and \<^verbatim>\<open>line.rstrip("\n\r")\<close>\<close>

definition rstrip :: "nat list \<Rightarrow> nat list" where
  "rstrip l = rev (dropWhile is_space (rev l))"

definition rstrip_nl :: "nat list \<Rightarrow> nat list" where
  "rstrip_nl l = rev (dropWhile (\<lambda>c. c = 10 \<or> c = 13) (rev l))"

subsection \<open>Formatting integers\<close>

function str_nat :: "nat \<Rightarrow> string" where
  "str_nat n =
     (if n < 10 then [''0123456789'' ! n]
      else str_nat (n div 10) @ [''0123456789'' ! (n mod 10)])"
  by pat_completeness auto
termination
  by (relation "measure (\<lambda>n. n)") auto

declare str_nat.simps [simp del]

subsection \<open>The five formatting checks\<close>

text \<open>
  Each check is a loop over \<^verbatim>\<open>_get_source_files()\<close> that counts the files and collects the
  offenders, followed by the choice of the record to return. The loops are folds over the
  loop state; an exception inside the \<^verbatim>\<open>try\<close> of one iteration is logged by the source and
  leaves the state as the iteration had it.
\<close>

definition line_endings_step :: "nat \<times> string list \<Rightarrow> path_entry \<Rightarrow> nat \<times> string list" where
  "line_endings_step st file_path =
     (case st of (files_checked, files_with_crlf) \<Rightarrow>
        (case raw file_path of
           None \<Rightarrow> (files_checked + 1, files_with_crlf)
         | Some content \<Rightarrow>
             if sublist [13, 10] content
             then (files_checked + 1, files_with_crlf @ [rel_path file_path])
             else (files_checked + 1, files_with_crlf)))"

definition check_line_endings :: "repo \<Rightarrow> outcome list" where
  "check_line_endings r =
     (case foldl line_endings_step (0, []) (get_source_files r) of
        (files_checked, files_with_crlf) \<Rightarrow>
          if files_with_crlf \<noteq> [] then
            [\<lparr>check = ''line_endings'',
              message = ''Files with Windows line endings (CRLF): ''
                @ join '', '' (take 5 files_with_crlf)
                @ (if length files_with_crlf > 5 then ''...'' else []),
              status = ''fail''\<rparr>]
          else if files_checked > 0 then
            [\<lparr>check = ''line_endings'',
              message = ''All '' @ str_nat files_checked
                @ '' source files use Unix line endings (LF)'',
              status = ''pass''\<rparr>]
          else [])"

definition encoding_step :: "nat \<times> string list \<Rightarrow> path_entry \<Rightarrow> nat \<times> string list" where
  "encoding_step st file_path =
     (case st of (files_checked, files_with_issues) \<Rightarrow>
        (case raw file_path of
           None \<Rightarrow> (files_checked + 1, files_with_issues)
         | Some content \<Rightarrow>
             if snd (utf8_decode content) then (files_checked + 1, files_with_issues)
             else (files_checked + 1, files_with_issues @ [rel_path file_path])))"

definition check_encoding :: "repo \<Rightarrow> outcome list" where
  "check_encoding r =
     (case foldl encoding_step (0, []) (get_source_files r) of
        (files_checked, files_with_issues) \<Rightarrow>
          if files_with_issues \<noteq> [] then
            [\<lparr>check = ''encoding'',
              message = ''Files with non-UTF-8 encoding: ''
                @ join '', '' (take 5 files_with_issues)
                @ (if length files_with_issues > 5 then ''...'' else []),
              status = ''fail''\<rparr>]
          else if files_checked > 0 then
            [\<lparr>check = ''encoding'',
              message = ''All '' @ str_nat files_checked @ '' source files use UTF-8 encoding'',
              status = ''pass''\<rparr>]
          else [])"

text \<open>
  A violation is the dictionary with keys \<^verbatim>\<open>file\<close>, \<^verbatim>\<open>line\<close> and \<^verbatim>\<open>length\<close>, here the triple
  of their values.
\<close>

type_synonym violation = "string \<times> nat \<times> nat"

definition line_length_inner :: "path_entry \<Rightarrow> violation list \<Rightarrow> nat \<times> nat list \<Rightarrow> violation list"
  where
  "line_length_inner file_path violations numbered =
     (case numbered of (line_num, line) \<Rightarrow>
        if length (rstrip_nl line) > MAX_LINE_LENGTH
        then violations @ [(rel_path file_path, line_num, length (rstrip_nl line))]
        else violations)"

definition line_length_step :: "nat \<times> violation list \<Rightarrow> path_entry \<Rightarrow> nat \<times> violation list" where
  "line_length_step st file_path =
     (case st of (files_checked, violations) \<Rightarrow>
        (files_checked + 1,
         foldl (line_length_inner file_path) violations (enumerate 1 (iter_lines file_path))))"

definition violation_msg :: "violation \<Rightarrow> string" where
  "violation_msg v =
     (case v of (file, line, len) \<Rightarrow>
        file @ '':'' @ str_nat line @ '' ('' @ str_nat len @ '' chars)'')"

definition check_line_length :: "repo \<Rightarrow> outcome list" where
  "check_line_length r =
     (case foldl line_length_step (0, []) (get_source_files r) of
        (files_checked, violations) \<Rightarrow>
          if violations \<noteq> [] then
            [\<lparr>check = ''line_length'',
              message = ''Lines exceeding '' @ str_nat MAX_LINE_LENGTH @ '' characters: ''
                @ join '', '' (map violation_msg (take 5 violations))
                @ (if length violations > 5 then ''...'' else []),
              status = ''fail''\<rparr>]
          else if files_checked > 0 then
            [\<lparr>check = ''line_length'',
              message = ''All lines in '' @ str_nat files_checked
                @ '' source files within '' @ str_nat MAX_LINE_LENGTH @ '' character limit'',
              status = ''pass''\<rparr>]
          else [])"

text \<open>The files the indentation loop passes over with \<^verbatim>\<open>continue\<close>.\<close>

definition is_makefile :: "path_entry \<Rightarrow> bool" where
  "is_makefile file_path \<longleftrightarrow>
     path_name file_path \<in> set [''Makefile'', ''makefile'']
     \<or> py_suffix (path_name file_path) = ''.mk''"

definition indentation_step :: "nat \<times> string list \<Rightarrow> path_entry \<Rightarrow> nat \<times> string list" where
  "indentation_step st file_path =
     (case st of (files_checked, files_with_tabs) \<Rightarrow>
        if is_makefile file_path then (files_checked, files_with_tabs)
        else
          (case read_text file_path of
             None \<Rightarrow> (files_checked + 1, files_with_tabs)
           | Some content \<Rightarrow>
               if 9 \<in> set content
               then (files_checked + 1, files_with_tabs @ [rel_path file_path])
               else (files_checked + 1, files_with_tabs)))"

definition check_indentation :: "repo \<Rightarrow> outcome list" where
  "check_indentation r =
     (case foldl indentation_step (0, []) (get_source_files r) of
        (files_checked, files_with_tabs) \<Rightarrow>
          if files_with_tabs \<noteq> [] then
            [\<lparr>check = ''indentation'',
              message = ''Files with tab indentation: ''
                @ join '', '' (take 5 files_with_tabs)
                @ (if length files_with_tabs > 5 then ''...'' else []),
              status = ''fail''\<rparr>]
          else if files_checked > 0 then
            [\<lparr>check = ''indentation'',
              message = ''All '' @ str_nat files_checked
                @ '' source files use space indentation'',
              status = ''pass''\<rparr>]
          else [])"

definition trailing_step :: "nat \<times> string list \<Rightarrow> path_entry \<Rightarrow> nat \<times> string list" where
  "trailing_step st file_path =
     (case st of (files_checked, files_with_trailing) \<Rightarrow>
        if list_ex (\<lambda>line. rstrip line \<noteq> rstrip_nl line) (iter_lines file_path)
        then (files_checked + 1, files_with_trailing @ [rel_path file_path])
        else (files_checked + 1, files_with_trailing))"

definition check_trailing_whitespace :: "repo \<Rightarrow> outcome list" where
  "check_trailing_whitespace r =
     (case foldl trailing_step (0, []) (get_source_files r) of
        (files_checked, files_with_trailing) \<Rightarrow>
          if files_with_trailing \<noteq> [] then
            [\<lparr>check = ''trailing_whitespace'',
              message = ''Files with trailing whitespace: ''
                @ join '', '' (take 5 files_with_trailing)
                @ (if length files_with_trailing > 5 then ''...'' else []),
              status = ''fail''\<rparr>]
          else if files_checked > 0 then
            [\<lparr>check = ''trailing_whitespace'',
              message = ''No trailing whitespace found in '' @ str_nat files_checked
                @ '' source files'',
              status = ''pass''\<rparr>]
          else [])"

subsection \<open>The offenders of each check, and the aggregation policy\<close>

text \<open>
  For stating C5 and C7: which files offend against each property, and the policy the
  five checks share. \<open>aggregate_policy\<close> follows the claim, with the case of no checked
  file added: one fail record listing the first five locations, with an ellipsis when
  there are more; otherwise one pass record when at least one file was checked; otherwise
  nothing.
\<close>

definition has_crlf :: "path_entry \<Rightarrow> bool" where
  "has_crlf p = (case raw p of None \<Rightarrow> False | Some bs \<Rightarrow> sublist [13, 10] bs)"

definition decodes :: "path_entry \<Rightarrow> bool" where
  "decodes p = (case raw p of None \<Rightarrow> False | Some bs \<Rightarrow> snd (utf8_decode bs))"

definition undecodable :: "path_entry \<Rightarrow> bool" where
  "undecodable p = (case raw p of None \<Rightarrow> False | Some bs \<Rightarrow> \<not> snd (utf8_decode bs))"

definition long_lines :: "path_entry \<Rightarrow> violation list" where
  "long_lines p =
     map (\<lambda>(line_num, line). (rel_path p, line_num, length (rstrip_nl line)))
       (filter (\<lambda>(line_num, line). length (rstrip_nl line) > MAX_LINE_LENGTH)
          (enumerate 1 (iter_lines p)))"

definition has_tab_byte :: "path_entry \<Rightarrow> bool" where
  "has_tab_byte p = (case raw p of None \<Rightarrow> False | Some bs \<Rightarrow> 9 \<in> set bs)"

definition has_tab :: "path_entry \<Rightarrow> bool" where
  "has_tab p = (case read_text p of None \<Rightarrow> False | Some content \<Rightarrow> 9 \<in> set content)"

definition has_trailing :: "path_entry \<Rightarrow> bool" where
  "has_trailing p = list_ex (\<lambda>line. rstrip line \<noteq> rstrip_nl line) (iter_lines p)"

definition offenders :: "(path_entry \<Rightarrow> bool) \<Rightarrow> path_entry list \<Rightarrow> string list" where
  "offenders bad ps = map rel_path (filter bad ps)"

definition aggregate_policy ::
  "string \<Rightarrow> string \<Rightarrow> string list \<Rightarrow> string \<Rightarrow> nat \<Rightarrow> outcome list" where
  "aggregate_policy name fail_prefix locations pass_message files_checked =
     (if locations \<noteq> [] then
        [\<lparr>check = name,
          message = fail_prefix @ join '', '' (take 5 locations)
            @ (if 5 < length locations then ''...'' else []),
          status = ''fail''\<rparr>]
      else if 0 < files_checked then
        [\<lparr>check = name, message = pass_message, status = ''pass''\<rparr>]
      else [])"

lemma foldl_line_endings:
  "foldl line_endings_step (n, acc) ps = (n + length ps, acc @ offenders has_crlf ps)"
  by (induction ps arbitrary: n acc)
     (simp_all add: line_endings_step_def offenders_def has_crlf_def split: option.splits)

lemma foldl_encoding:
  "foldl encoding_step (n, acc) ps = (n + length ps, acc @ offenders undecodable ps)"
  by (induction ps arbitrary: n acc)
     (simp_all add: encoding_step_def offenders_def undecodable_def split: option.splits)

lemma foldl_line_length_inner:
  "foldl (line_length_inner p) acc nls =
     acc @ map (\<lambda>(line_num, line). (rel_path p, line_num, length (rstrip_nl line)))
             (filter (\<lambda>(line_num, line). length (rstrip_nl line) > MAX_LINE_LENGTH) nls)"
  by (induction nls arbitrary: acc) (simp_all add: line_length_inner_def split: prod.splits)

lemma foldl_line_length:
  "foldl line_length_step (n, acc) ps = (n + length ps, acc @ concat (map long_lines ps))"
  by (induction ps arbitrary: n acc)
     (simp_all add: line_length_step_def foldl_line_length_inner long_lines_def)

lemma foldl_indentation:
  "foldl indentation_step (n, acc) ps =
     (n + length (filter (\<lambda>p. \<not> is_makefile p) ps),
      acc @ offenders (\<lambda>p. \<not> is_makefile p \<and> has_tab p) ps)"
  by (induction ps arbitrary: n acc)
     (simp_all add: indentation_step_def offenders_def has_tab_def split: option.splits)

lemma foldl_trailing:
  "foldl trailing_step (n, acc) ps = (n + length ps, acc @ offenders has_trailing ps)"
  by (induction ps arbitrary: n acc)
     (simp_all add: trailing_step_def offenders_def has_trailing_def)

lemma utf8_seq_tab:
  "utf8_seq bs = Some (c, r) \<Longrightarrow> (9 \<in> set bs) = (c = 9 \<or> 9 \<in> set r)"
  by (auto simp: utf8_seq_def cont_def split: list.splits if_splits)

lemma utf8_decode_tab:
  "snd (utf8_decode bs) \<Longrightarrow> (9 \<in> set (fst (utf8_decode bs))) = (9 \<in> set bs)"
proof (induction bs rule: utf8_decode.induct)
  case 1
  show ?case by simp
next
  case (2 b bs)
  show ?case
  proof (cases "utf8_seq (b # bs)")
    case None
    with "2.prems" show ?thesis by simp
  next
    case (Some a)
    obtain c r where a: "a = (c, r)" by (cases a)
    from Some a "2.prems" have ok: "snd (utf8_decode r)"
      by (simp split: prod.splits)
    from "2.IH" [OF Some a [symmetric] ok]
    have ih: "(9 \<in> set (fst (utf8_decode r))) = (9 \<in> set r)" .
    from Some a have "fst (utf8_decode (b # bs)) = c # fst (utf8_decode r)"
      by (simp split: prod.splits)
    with ih utf8_seq_tab [of "b # bs" c r] Some a show ?thesis by auto
  qed
qed

lemma universal_newlines_tab: "(9 \<in> set (universal_newlines cs)) = (9 \<in> set cs)"
  by (induction cs rule: universal_newlines.induct) (auto split: list.splits)

lemma has_tab_iff: "has_tab p = (decodes p \<and> has_tab_byte p)"
proof (cases "raw p")
  case None
  then show ?thesis by (simp add: has_tab_def read_text_def decodes_def)
next
  case (Some bs)
  obtain cs ok where d: "utf8_decode bs = (cs, ok)" by (cases "utf8_decode bs")
  show ?thesis
  proof (cases ok)
    case True
    with d utf8_decode_tab [of bs] have "(9 \<in> set cs) = (9 \<in> set bs)" by simp
    with Some d True show ?thesis
      by (simp add: has_tab_def read_text_def decodes_def has_tab_byte_def
          universal_newlines_tab)
  next
    case False
    with Some d show ?thesis by (simp add: has_tab_def read_text_def decodes_def)
  qed
qed

lemma source_files_in_tree: "set (get_source_files r) \<subseteq> set (tree r)"
  by (auto simp: get_source_files_def rglob_def)

lemma check_indentation_policy:
  "check_indentation r =
     aggregate_policy ''indentation'' ''Files with tab indentation: ''
       (offenders (\<lambda>p. \<not> is_makefile p \<and> has_tab p) (get_source_files r))
       (''All '' @ str_nat (length (filter (\<lambda>p. \<not> is_makefile p) (get_source_files r)))
          @ '' source files use space indentation'')
       (length (filter (\<lambda>p. \<not> is_makefile p) (get_source_files r)))"
  by (simp add: check_indentation_def foldl_indentation aggregate_policy_def)

subsection \<open>Concrete repositories\<close>

lemma extensions_eq:
  "extensions =
     [''.py'', ''.c'', ''.h'', ''.cpp'', ''.cc'', ''.cxx'', ''.hpp'', ''.hh'', ''.js'', ''.jsx'',
      ''.ts'', ''.tsx'', ''.go'', ''.java'', ''.sh'', ''.bash'', ''.pl'', ''.pm'', ''.php'',
      ''.ps1'', ''.psm1'', ''.psd1'', ''.html'', ''.htm'', ''.css'', ''.scss'', ''.less'',
      ''.awk'']"
  by (simp add: extensions_def LANGUAGE_EXTENSIONS_def)

text \<open>A text file without recognised source files beside it.\<close>

definition readme :: path_entry where
  "readme = \<lparr>rel_parts = [''README.md''], raw = Some [35, 32, 104, 105, 10],
     lines_before_error = 0\<rparr>"

text \<open>\<^verbatim>\<open>src/a.py\<close>: the bytes of \<^verbatim>\<open>x = 1\r\n\ty = 2\n\<close>.\<close>

definition file_a :: path_entry where
  "file_a = \<lparr>rel_parts = [''src'', ''a.py''],
     raw = Some [120, 32, 61, 32, 49, 13, 10, 9, 121, 32, 61, 32, 50, 10],
     lines_before_error = 0\<rparr>"

text \<open>\<^verbatim>\<open>b.js\<close>: the bytes of \<^verbatim>\<open>let b;\n\<close>.\<close>

definition file_b :: path_entry where
  "file_b = \<lparr>rel_parts = [''b.js''], raw = Some [108, 101, 116, 32, 98, 59, 10],
     lines_before_error = 0\<rparr>"

text \<open>\<^verbatim>\<open>Makefile\<close>: the bytes of \<^verbatim>\<open>all:\n\tcc\n\<close>.\<close>

definition makefile_entry :: path_entry where
  "makefile_entry = \<lparr>rel_parts = [''Makefile''],
     raw = Some [97, 108, 108, 58, 10, 9, 99, 99, 10], lines_before_error = 0\<rparr>"

text \<open>\<^verbatim>\<open>legacy.py\<close>: the byte \<^verbatim>\<open>0xFF\<close>, which no UTF-8 text contains, then a tab.\<close>

definition file_legacy :: path_entry where
  "file_legacy = \<lparr>rel_parts = [''legacy.py''], raw = Some [255, 9], lines_before_error = 0\<rparr>"


definition repo_ab :: repo where
  "repo_ab =
     \<lparr>root_parts = [''/'', ''repo''], tree = [readme, file_b, file_a], ext_iter = extensions\<rparr>"

definition repo_make :: repo where
  "repo_make =
     \<lparr>root_parts = [''/'', ''repo''], tree = [makefile_entry, file_b],
      ext_iter = extensions\<rparr>"

definition repo_legacy :: repo where
  "repo_legacy =
     \<lparr>root_parts = [''/'', ''repo''], tree = [file_legacy], ext_iter = extensions\<rparr>"


lemma source_files_ab: "get_source_files repo_ab = [file_a, file_b]"
  by (simp add: get_source_files_def repo_ab_def extensions_eq rglob_def readme_def
      file_a_def file_b_def path_name_def ends_with_def excluded_dirs_def)

lemma source_files_make: "get_source_files repo_make = [file_b]"
  by (simp add: get_source_files_def repo_make_def extensions_eq rglob_def makefile_entry_def
      file_b_def path_name_def ends_with_def excluded_dirs_def)

lemma source_files_legacy: "get_source_files repo_legacy = [file_legacy]"
  by (simp add: get_source_files_def repo_legacy_def extensions_eq rglob_def file_legacy_def
      path_name_def ends_with_def excluded_dirs_def)

subsection \<open>The aggregation policy\<close>




subsection \<open>Tabs\<close>

text \<open>
  C7, as the code has it. If some source file that the scan does not pass over as a
  Makefile decodes as UTF-8 and contains a tab byte, the indentation check returns one
  record, of status fail. If every path of the repository that contains a tab byte is
  named \<^verbatim>\<open>Makefile\<close> or \<^verbatim>\<open>makefile\<close> or has the suffix \<^verbatim>\<open>.mk\<close>, the check returns no record of
  status fail.
\<close>

theorem tab_indentation:
  "((\<exists>p \<in> set (get_source_files r). \<not> is_makefile p \<and> decodes p \<and> has_tab_byte p)
      \<longrightarrow> map status (check_indentation r) = [''fail''])
   \<and> ((\<forall>p \<in> set (tree r). has_tab_byte p \<longrightarrow> is_makefile p)
      \<longrightarrow> ''fail'' \<notin> set (map status (check_indentation r)))"
proof (intro conjI impI)
  assume "\<exists>p \<in> set (get_source_files r). \<not> is_makefile p \<and> decodes p \<and> has_tab_byte p"
  then obtain p where p: "p \<in> set (get_source_files r)" "\<not> is_makefile p" "has_tab p"
    by (auto simp: has_tab_iff)
  then have "filter (\<lambda>p. \<not> is_makefile p \<and> has_tab p) (get_source_files r) \<noteq> []"
    by (auto simp: filter_empty_conv)
  then have "offenders (\<lambda>p. \<not> is_makefile p \<and> has_tab p) (get_source_files r) \<noteq> []"
    by (simp add: offenders_def)
  then show "map status (check_indentation r) = [''fail'']"
    by (simp add: check_indentation_policy aggregate_policy_def)
next
  assume a: "\<forall>p \<in> set (tree r). has_tab_byte p \<longrightarrow> is_makefile p"
  have "filter (\<lambda>p. \<not> is_makefile p \<and> has_tab p) (get_source_files r) = []"
    using a source_files_in_tree [of r] by (auto simp: filter_empty_conv has_tab_iff)
  then have "offenders (\<lambda>p. \<not> is_makefile p \<and> has_tab p) (get_source_files r) = []"
    by (simp add: offenders_def)
  then show "''fail'' \<notin> set (map status (check_indentation r))"
    by (auto simp: check_indentation_policy aggregate_policy_def)
qed

theorem tab_indentation_witness:
  "file_a \<in> set (get_source_files repo_ab) \<and> \<not> is_makefile file_a \<and> decodes file_a
   \<and> has_tab_byte file_a
   \<and> map status (check_indentation repo_ab) = [''fail'']
   \<and> has_tab_byte makefile_entry \<and> is_makefile makefile_entry \<and> \<not> has_tab_byte file_b
   \<and> ''fail'' \<notin> set (map status (check_indentation repo_make))"
proof -
  have a: "file_a \<in> set (get_source_files repo_ab)" "\<not> is_makefile file_a" "decodes file_a"
    "has_tab_byte file_a"
    by (simp_all add: source_files_ab is_makefile_def decodes_def has_tab_byte_def file_a_def
        path_name_def py_suffix_def utf8_seq_def)
  have m: "has_tab_byte makefile_entry" "is_makefile makefile_entry" "\<not> has_tab_byte file_b"
    by (simp_all add: has_tab_byte_def is_makefile_def makefile_entry_def file_b_def
        path_name_def)
  then have t: "\<forall>p \<in> set (tree repo_make). has_tab_byte p \<longrightarrow> is_makefile p"
    by (simp add: repo_make_def)
  from tab_indentation [of repo_ab] a
  have 1: "map status (check_indentation repo_ab) = [''fail'']" by blast
  from tab_indentation [of repo_make] t
  have 2: "''fail'' \<notin> set (map status (check_indentation repo_make))" by blast
  from a m 1 2 show ?thesis by blast
qed

text \<open>
  C7 as stated fails for a source file that is not valid UTF-8: \<^verbatim>\<open>legacy.py\<close> is scanned,
  is no Makefile and contains a tab, but reading it as text raises, the file is passed
  over, and the check reports that the one file it checked uses space indentation.
\<close>

theorem undecodable_tab_counterexample:
  "get_source_files repo_legacy = [file_legacy]
   \<and> \<not> is_makefile file_legacy \<and> has_tab_byte file_legacy
   \<and> check_indentation repo_legacy =
       [\<lparr>check = ''indentation'', message = ''All 1 source files use space indentation'',
         status = ''pass''\<rparr>]"
proof -
  have n: "str_nat (Suc 0) = ''1''"
    by (simp add: str_nat.simps)
  have f: "\<not> is_makefile file_legacy" "has_tab_byte file_legacy" "read_text file_legacy = None"
    by (simp_all add: is_makefile_def has_tab_byte_def read_text_def file_legacy_def
        path_name_def py_suffix_def utf8_seq_def)
  then show ?thesis
    by (simp add: source_files_legacy check_indentation_def indentation_step_def n)
qed

section \<open>Security (core/security.py): static analysis tools\<close>

subsection \<open>Running a command\<close>

text \<open>
  What a command does when it is started in the repository: the executable is not found;
  running it raises some other exception, with its text (the executable may not be run, or
  with \<^verbatim>\<open>text=True\<close> its output does not decode); it runs for a number of time units and
  exits with a return code and its decoded standard output and standard error; or it never
  exits.
\<close>

datatype behaviour = NotFound | Raises string | Exits nat int string string | Hangs

datatype run_exception = FileNotFound | TimeoutExpired | OtherException string

record completed =
  returncode :: int
  stdout :: string
  stderr :: string

text \<open>
  \<^verbatim>\<open>subprocess.run(cmd, capture_output=True, timeout=t)\<close> of the standard library, by its
  documentation: the call returns the completed process, or raises; with a timeout, a
  command still running after \<open>t\<close> time units is killed and \<^verbatim>\<open>TimeoutExpired\<close> is raised;
  without one, the call waits for the command, and does not return (\<open>None\<close>) when the
  command never exits.
\<close>

definition subprocess_run :: "behaviour \<Rightarrow> nat option \<Rightarrow> (run_exception + completed) option" where
  "subprocess_run b timeout =
     (case b of
        NotFound \<Rightarrow> Some (Inl FileNotFound)
      | Raises e \<Rightarrow> Some (Inl (OtherException e))
      | Exits d rc out err \<Rightarrow>
          (case timeout of
             None \<Rightarrow> Some (Inr \<lparr>returncode = rc, stdout = out, stderr = err\<rparr>)
           | Some t \<Rightarrow>
               if t < d then Some (Inl TimeoutExpired)
               else Some (Inr \<lparr>returncode = rc, stdout = out, stderr = err\<rparr>))
      | Hangs \<Rightarrow>
          (case timeout of None \<Rightarrow> None | Some t \<Rightarrow> Some (Inl TimeoutExpired)))"

subsection \<open>\<^verbatim>\<open>_run_sast_tools\<close>\<close>




text \<open>\<^verbatim>\<open>str.capitalize\<close> on ASCII text.\<close>

definition upper :: "char \<Rightarrow> char" where
  "upper c = (if 97 \<le> (of_char c :: nat) \<and> (of_char c :: nat) \<le> 122
     then char_of ((of_char c :: nat) - 32) else c)"

definition lower :: "char \<Rightarrow> char" where
  "lower c = (if 65 \<le> (of_char c :: nat) \<and> (of_char c :: nat) \<le> 90
     then char_of ((of_char c :: nat) + 32) else c)"

definition capitalize :: "string \<Rightarrow> string" where
  "capitalize s = (case s of [] \<Rightarrow> [] | c # cs \<Rightarrow> upper c # map lower cs)"






subsection \<open>Concrete tool behaviours\<close>



lemma capitalize_python: "capitalize ''python'' = ''Python''"
  by code_simp





subsection \<open>Outcomes of a scan\<close>




section \<open>Two runs over an unmodified repository\<close>

subsection \<open>The code-standards category (\<^verbatim>\<open>CodeStandardsValidator.validate\<close>)\<close>

text \<open>The dictionary \<^verbatim>\<open>checks\<close> of \<^verbatim>\<open>_check_editorconfig\<close>.\<close>

definition editorconfig_checks :: "(string \<times> string) list" where
  "editorconfig_checks =
     [(''end_of_line = lf'', ''Unix line endings (LF)''),
      (''charset = utf-8'', ''UTF-8 encoding''),
      (''indent_style = space'', ''Space indentation''),
      (''trim_trailing_whitespace = true'', ''Trim trailing whitespace''),
      (''insert_final_newline = true'', ''Final newline'')]"

text \<open>\<^verbatim>\<open>setting.split()[0]\<close> for a setting that is not blank.\<close>

definition first_word :: "string \<Rightarrow> string" where
  "first_word s =
     takeWhile (\<lambda>c. \<not> is_space (of_char c)) (dropWhile (\<lambda>c. is_space (of_char c)) s)"

text \<open>
  \<^verbatim>\<open>_check_editorconfig\<close> for the path \<^verbatim>\<open>.editorconfig\<close>. \<open>read_error\<close> gives the text of
  the exception that opening or reading a path raises.
\<close>

definition check_editorconfig :: "(path_entry \<Rightarrow> string) \<Rightarrow> path_entry \<Rightarrow> outcome list" where
  "check_editorconfig read_error editorconfig_path =
     (case read_text editorconfig_path of
        None \<Rightarrow>
          [\<lparr>check = ''editorconfig'',
            message = ''Error reading .editorconfig: '' @ read_error editorconfig_path,
            status = ''fail''\<rparr>]
      | Some content \<Rightarrow>
          map (\<lambda>(setting, description).
                 if sublist (map of_char setting) content then
                   \<lparr>check = ''editorconfig_'' @ first_word setting,
                    message = ''.editorconfig specifies: '' @ description,
                    status = ''pass''\<rparr>
                 else
                   \<lparr>check = ''editorconfig_'' @ first_word setting,
                    message = ''.editorconfig missing: '' @ description,
                    status = ''warning''\<rparr>)
            editorconfig_checks)"

definition LINTERS :: "(string \<times> string list) list" where
  "LINTERS =
     [(''python'', [''ruff'', ''check'']),
      (''shell'', [''shellcheck'']),
      (''go'', [''golangci-lint'', ''run'']),
      (''javascript'', [''eslint'']),
      (''css'', [''stylelint'']),
      (''perl'', [''perlcritic'']),
      (''powershell'', [''PSScriptAnalyzer''])]"

text \<open>\<^verbatim>\<open>_detect_languages\<close>: the dictionary is walked in its order, not a set.\<close>

definition detect_languages :: "repo \<Rightarrow> string list" where
  "detect_languages r =
     map fst
       (filter (\<lambda>(language, exts). list_ex (\<lambda>ext. rglob r ext \<noteq> []) exts)
          LANGUAGE_EXTENSIONS)"

text \<open>
  The two \<^verbatim>\<open>except\<close> clauses of \<^verbatim>\<open>_run_linters\<close>. Neither call there passes a timeout, so
  \<^verbatim>\<open>TimeoutExpired\<close> is not raised; the general clause would take it.
\<close>

definition linter_handler :: "string \<Rightarrow> string list \<Rightarrow> run_exception \<Rightarrow> outcome" where
  "linter_handler language linter_cmd ex =
     (case ex of
        FileNotFound \<Rightarrow>
          \<lparr>check = ''linter_'' @ language,
           message = capitalize language @ '' linter not available: '' @ hd linter_cmd,
           status = ''warning''\<rparr>
      | TimeoutExpired \<Rightarrow>
          \<lparr>check = ''linter_'' @ language,
           message = ''Could not run '' @ language @ '' linter: timed out'',
           status = ''warning''\<rparr>
      | OtherException e \<Rightarrow>
          \<lparr>check = ''linter_'' @ language,
           message = ''Could not run '' @ language @ '' linter: '' @ e,
           status = ''warning''\<rparr>)"

text \<open>
  One iteration of the loop of \<^verbatim>\<open>_run_linters\<close>; \<open>None\<close> when it never finishes (both calls
  wait for the command without a timeout).
\<close>

definition linter_one :: "(string list \<Rightarrow> behaviour) \<Rightarrow> string \<Rightarrow> outcome list option" where
  "linter_one procs language =
     (case map_of LINTERS language of
        None \<Rightarrow> Some []
      | Some linter_cmd \<Rightarrow>
          (case subprocess_run (procs [hd linter_cmd, ''--version'']) None of
             None \<Rightarrow> None
           | Some (Inl ex) \<Rightarrow> Some [linter_handler language linter_cmd ex]
           | Some (Inr probe) \<Rightarrow>
               (case subprocess_run (procs linter_cmd) None of
                  None \<Rightarrow> None
                | Some (Inl ex) \<Rightarrow> Some [linter_handler language linter_cmd ex]
                | Some (Inr result) \<Rightarrow>
                    if returncode result = 0 then
                      Some [\<lparr>check = ''linter_'' @ language,
                             message = capitalize language @ '' linter passed'',
                             status = ''pass''\<rparr>]
                    else
                      Some [\<lparr>check = ''linter_'' @ language,
                             message = capitalize language @ '' linter found issues: ''
                               @ take 200
                                   (if stdout result \<noteq> [] then stdout result
                                    else stderr result)
                               @ ''...'',
                             status = ''fail''\<rparr>])))"

fun linters_loop ::
  "(string list \<Rightarrow> behaviour) \<Rightarrow> string list \<Rightarrow> outcome list \<Rightarrow> outcome list option" where
  "linters_loop procs [] acc = Some acc"
| "linters_loop procs (language # rest) acc =
     (case linter_one procs language of
        None \<Rightarrow> None
      | Some rs \<Rightarrow> linters_loop procs rest (acc @ rs))"

definition run_linters :: "(string list \<Rightarrow> behaviour) \<Rightarrow> repo \<Rightarrow> outcome list option" where
  "run_linters procs r = linters_loop procs (detect_languages r) []"

text \<open>The five formatting checks, in the order in which \<^verbatim>\<open>validate\<close> calls them.\<close>

definition formatting_checks :: "repo \<Rightarrow> outcome list" where
  "formatting_checks r =
     check_line_endings r @ check_encoding r @ check_line_length r @ check_indentation r
     @ check_trailing_whitespace r"

text \<open>
  \<^verbatim>\<open>validate\<close>: the records of \<^verbatim>\<open>_check_editorconfig\<close> when \<^verbatim>\<open>.editorconfig\<close> exists under the
  root, of the five formatting checks and of \<^verbatim>\<open>_run_linters\<close>; \<open>None\<close> when the linters never
  return.
\<close>

definition validate_code ::
  "(path_entry \<Rightarrow> string) \<Rightarrow> (string list \<Rightarrow> behaviour) \<Rightarrow> repo \<Rightarrow> outcome list option" where
  "validate_code read_error procs r =
     (let rs =
            (case find (\<lambda>p. rel_parts p = [''.editorconfig'']) (tree r) of
               None \<Rightarrow> []
             | Some editorconfig_path \<Rightarrow> check_editorconfig read_error editorconfig_path)
            @ formatting_checks r
      in map_option (\<lambda>linters. rs @ linters) (run_linters procs r))"

text \<open>
  \<^verbatim>\<open>check_all\<close> on a checker whose code-standards validator works on the repository \<open>r\<close> with
  the tools \<open>procs\<close>, while the three other categories and the forensic probes observe what
  \<open>v\<close> holds for them (none of them iterates a set). \<open>None\<close> when the run never returns.
\<close>

definition check_all_over ::
  "env \<Rightarrow> (path_entry \<Rightarrow> string) \<Rightarrow> (string list \<Rightarrow> behaviour) \<Rightarrow> repo \<Rightarrow> bool \<Rightarrow> checker
     \<Rightarrow> checker option" where
  "check_all_over v read_error procs r include_forensic c =
     map_option (\<lambda>rs. check_all (v\<lparr>code_validator := Inr rs\<rparr>) include_forensic c)
       (validate_code read_error procs r)"

text \<open>
  What of a record survives a change in the order of the files: its check name, its
  status, and its message unless it is a fail record (whose message lists file names).
\<close>

definition verdict :: "outcome \<Rightarrow> string \<times> string \<times> string" where
  "verdict res =
     (check res, status res, if status res = ''fail'' then [] else message res)"

subsection \<open>Concrete inputs\<close>

text \<open>\<^verbatim>\<open>.editorconfig\<close>: the bytes of \<^verbatim>\<open>charset = utf-8\n\<close>.\<close>

definition editorconfig_entry :: path_entry where
  "editorconfig_entry = \<lparr>rel_parts = [''.editorconfig''],
     raw = Some [99, 104, 97, 114, 115, 101, 116, 32, 61, 32, 117, 116, 102, 45, 56, 10],
     lines_before_error = 0\<rparr>"

text \<open>\<^verbatim>\<open>c.py\<close>: the bytes of \<^verbatim>\<open>a\r\n\<close>; \<^verbatim>\<open>d.js\<close>: the bytes of \<^verbatim>\<open>b\r\n\<close>.\<close>

definition file_c :: path_entry where
  "file_c = \<lparr>rel_parts = [''c.py''], raw = Some [97, 13, 10], lines_before_error = 0\<rparr>"

definition file_d :: path_entry where
  "file_d = \<lparr>rel_parts = [''d.js''], raw = Some [98, 13, 10], lines_before_error = 0\<rparr>"

text \<open>
  One repository, seen by two interpreter processes that iterate the set of extensions in
  opposite orders.
\<close>

definition repo_cd :: repo where
  "repo_cd =
     \<lparr>root_parts = [''/'', ''repo''], tree = [editorconfig_entry, file_c, file_d],
      ext_iter = extensions\<rparr>"

definition repo_dc :: repo where
  "repo_dc =
     \<lparr>root_parts = [''/'', ''repo''], tree = [editorconfig_entry, file_c, file_d],
      ext_iter = rev extensions\<rparr>"

text \<open>No linter is installed.\<close>

definition procs_absent :: "string list \<Rightarrow> behaviour" where
  "procs_absent cmd = NotFound"

definition read_error0 :: "path_entry \<Rightarrow> string" where
  "read_error0 p = ''[Errno 13] Permission denied''"

definition fresh_a :: checker where
  "fresh_a = checker0\<lparr>logged := [(INFO, ''Initialized checker for repository: /repo'')]\<rparr>"

definition fresh_b :: checker where
  "fresh_b =
     checker0\<lparr>config_path := Some ''rules.json'',
       logged := [(INFO, ''Initialized checker for repository: /repo'')]\<rparr>"

subsection \<open>The order of the files and the verdicts\<close>

lemma count_source_files:
  assumes "root_parts ra = root_parts rb" and "tree ra = tree rb"
    and "distinct (ext_iter ra)" and "distinct (ext_iter rb)"
    and "set (ext_iter ra) = set (ext_iter rb)"
  shows "length (filter P (get_source_files ra)) = length (filter P (get_source_files rb))"
proof -
  define g where "g = (\<lambda>ext. length (filter P (filter
      (\<lambda>p. \<not> list_ex (\<lambda>excluded. excluded \<in> set (root_parts ra @ rel_parts p)) excluded_dirs)
      (rglob ra ext))))"
  have a: "length (filter P (get_source_files ra)) = sum_list (map g (ext_iter ra))"
    by (simp add: get_source_files_def filter_concat length_concat g_def comp_def)
  have "rglob rb = rglob ra"
    using assms(2) by (simp add: rglob_def fun_eq_iff)
  then have b: "length (filter P (get_source_files rb)) = sum_list (map g (ext_iter rb))"
    using assms(1) by (simp add: get_source_files_def filter_concat length_concat g_def comp_def)
  have "sum_list (map g (ext_iter ra)) = sum g (set (ext_iter ra))"
    using assms(3) by (rule sum_list_distinct_conv_sum_set)
  moreover have "sum_list (map g (ext_iter rb)) = sum g (set (ext_iter rb))"
    using assms(4) by (rule sum_list_distinct_conv_sum_set)
  ultimately show ?thesis using a b assms(5) by simp
qed

lemma empty_filter_count: "(filter P xs = []) = (length (filter P xs) = 0)"
  by simp

lemma check_line_endings_policy:
  "check_line_endings r =
     aggregate_policy ''line_endings'' ''Files with Windows line endings (CRLF): ''
       (offenders has_crlf (get_source_files r))
       (''All '' @ str_nat (length (get_source_files r))
          @ '' source files use Unix line endings (LF)'')
       (length (get_source_files r))"
  by (simp add: check_line_endings_def foldl_line_endings aggregate_policy_def)

lemma check_encoding_policy:
  "check_encoding r =
     aggregate_policy ''encoding'' ''Files with non-UTF-8 encoding: ''
       (offenders undecodable (get_source_files r))
       (''All '' @ str_nat (length (get_source_files r)) @ '' source files use UTF-8 encoding'')
       (length (get_source_files r))"
  by (simp add: check_encoding_def foldl_encoding aggregate_policy_def)

lemma check_line_length_policy:
  "check_line_length r =
     aggregate_policy ''line_length''
       (''Lines exceeding '' @ str_nat MAX_LINE_LENGTH @ '' characters: '')
       (map violation_msg (concat (map long_lines (get_source_files r))))
       (''All lines in '' @ str_nat (length (get_source_files r))
          @ '' source files within '' @ str_nat MAX_LINE_LENGTH @ '' character limit'')
       (length (get_source_files r))"
  by (simp add: check_line_length_def foldl_line_length aggregate_policy_def take_map)

lemma check_trailing_policy:
  "check_trailing_whitespace r =
     aggregate_policy ''trailing_whitespace'' ''Files with trailing whitespace: ''
       (offenders has_trailing (get_source_files r))
       (''No trailing whitespace found in '' @ str_nat (length (get_source_files r))
          @ '' source files'')
       (length (get_source_files r))"
  by (simp add: check_trailing_whitespace_def foldl_trailing aggregate_policy_def)

lemma verdict_policy:
  "map verdict (aggregate_policy name fail_prefix locations pass_message n) =
     (if locations \<noteq> [] then [(name, ''fail'', [])]
      else if 0 < n then [(name, ''pass'', pass_message)] else [])"
  by (simp add: aggregate_policy_def verdict_def)

lemma offenders_empty: "(offenders bad ps = []) = (length (filter bad ps) = 0)"
  by (simp add: offenders_def)

lemma violations_empty:
  "(map violation_msg (concat (map long_lines ps)) = [])
     = (length (filter (\<lambda>p. long_lines p \<noteq> []) ps) = 0)"
  by (simp add: filter_empty_conv)

lemma formatting_verdicts:
  assumes "root_parts ra = root_parts rb" and "tree ra = tree rb"
    and "distinct (ext_iter ra)" and "distinct (ext_iter rb)"
    and "set (ext_iter ra) = set (ext_iter rb)"
  shows "map verdict (formatting_checks ra) = map verdict (formatting_checks rb)"
proof -
  note cnt = count_source_files [OF assms]
  have len: "length (get_source_files ra) = length (get_source_files rb)"
    using cnt [of "\<lambda>p. True"] by simp
  have 1: "map verdict (check_line_endings ra) = map verdict (check_line_endings rb)"
    by (simp only: check_line_endings_policy verdict_policy offenders_empty len
        cnt [of has_crlf])
  have 2: "map verdict (check_encoding ra) = map verdict (check_encoding rb)"
    by (simp only: check_encoding_policy verdict_policy offenders_empty len
        cnt [of undecodable])
  have 3: "map verdict (check_line_length ra) = map verdict (check_line_length rb)"
    by (simp only: check_line_length_policy verdict_policy violations_empty len
        cnt [of "\<lambda>p. long_lines p \<noteq> []"])
  have 4: "map verdict (check_indentation ra) = map verdict (check_indentation rb)"
    by (simp only: check_indentation_policy verdict_policy offenders_empty
        cnt [of "\<lambda>p. \<not> is_makefile p \<and> has_tab p"] cnt [of "\<lambda>p. \<not> is_makefile p"])
  have 5: "map verdict (check_trailing_whitespace ra) =
      map verdict (check_trailing_whitespace rb)"
    by (simp only: check_trailing_policy verdict_policy offenders_empty len
        cnt [of has_trailing])
  from 1 2 3 4 5 show ?thesis
    by (simp add: formatting_checks_def)
qed

lemma contribution_verdicts:
  assumes "map verdict rsa = map verdict rsb"
  shows "passed (contribution name (Inr rsa)) = passed (contribution name (Inr rsb))
    \<and> warnings (contribution name (Inr rsa)) = warnings (contribution name (Inr rsb))
    \<and> errors (contribution name (Inr rsa)) = errors (contribution name (Inr rsb))
    \<and> map check (failed (contribution name (Inr rsa))) =
        map check (failed (contribution name (Inr rsb)))"
proof -
  from assms have "length rsa = length rsb"
    by (rule map_eq_imp_length_eq)
  then show ?thesis
    using assms
  proof (induction rsa rsb rule: list_induct2)
    case Nil
    show ?case by simp
  next
    case (Cons a rsa b rsb)
    from Cons.prems have v: "verdict a = verdict b" and "map verdict rsa = map verdict rsb"
      by simp_all
    with Cons.IH have ih:
      "passed (contribution name (Inr rsa)) = passed (contribution name (Inr rsb))"
      "warnings (contribution name (Inr rsa)) = warnings (contribution name (Inr rsb))"
      "map check (failed (contribution name (Inr rsa))) =
         map check (failed (contribution name (Inr rsb)))"
      by simp_all
    from v have c: "check a = check b" and s: "status a = status b"
      and m: "status a \<noteq> ''fail'' \<Longrightarrow> message a = message b"
      by (simp_all add: verdict_def split: if_splits)
    have p: "status a = ''pass'' \<Longrightarrow> pass_entry a = pass_entry b"
      and w: "status a = ''warning'' \<Longrightarrow> plain_entry a = plain_entry b"
      using c m by (simp_all add: pass_entry_def plain_entry_def)
    have f: "check (plain_entry a) = check (plain_entry b)"
      using c by (simp add: plain_entry_def)
    from ih s p w f show ?case
      by (simp add: contribution_def with_status_def)
  qed
qed

lemma all_contribution_verdicts:
  assumes "map verdict rsa = map verdict rsb"
  shows "passed (all_contribution (v\<lparr>code_validator := Inr rsa\<rparr>) inc) =
      passed (all_contribution (v\<lparr>code_validator := Inr rsb\<rparr>) inc)
    \<and> warnings (all_contribution (v\<lparr>code_validator := Inr rsa\<rparr>) inc) =
      warnings (all_contribution (v\<lparr>code_validator := Inr rsb\<rparr>) inc)
    \<and> errors (all_contribution (v\<lparr>code_validator := Inr rsa\<rparr>) inc) =
      errors (all_contribution (v\<lparr>code_validator := Inr rsb\<rparr>) inc)
    \<and> map check (failed (all_contribution (v\<lparr>code_validator := Inr rsa\<rparr>) inc)) =
      map check (failed (all_contribution (v\<lparr>code_validator := Inr rsb\<rparr>) inc))"
  using contribution_verdicts [OF assms, of "''code_standards''"]
  by (simp add: all_contribution_def merge_buckets forensic_contribution_def)

lemma summary_from_buckets:
  assumes "passed x = passed y" and "warnings x = warnings y" and "errors x = errors y"
    and "map check (failed x) = map check (failed y)"
  shows "get_summary x = get_summary y"
proof -
  from assms(4) have "length (failed x) = length (failed y)"
    by (rule map_eq_imp_length_eq)
  moreover from this have "(failed x = []) = (failed y = [])"
    by (metis length_0_conv)
  ultimately show ?thesis
    using assms(1-3) by (simp add: get_summary_def is_passing_def)
qed

lemma run_linters_tree: "tree ra = tree rb \<Longrightarrow> run_linters procs ra = run_linters procs rb"
  by (simp add: run_linters_def detect_languages_def rglob_def)

lemma fresh_run_results:
  assumes "results c = ValidationResult_init"
  shows "results (check_all w inc c) = all_contribution w inc"
  using assms by (simp add: check_all_results merge_init_left)

lemma subprocess_run_returns: "b \<noteq> Hangs \<Longrightarrow> subprocess_run b t \<noteq> None"
  by (cases b) (simp_all add: subprocess_run_def split: option.splits)

lemma subprocess_run_no_timeout: "subprocess_run b None \<noteq> Some (Inl TimeoutExpired)"
  by (cases b) (simp_all add: subprocess_run_def)

lemma linter_one_returns:
  assumes "\<forall>cmd. procs cmd \<noteq> Hangs"
  shows "linter_one procs language \<noteq> None"
proof (cases "map_of LINTERS language")
  case None
  then show ?thesis by (simp add: linter_one_def)
next
  case (Some linter_cmd)
  from assms subprocess_run_returns
  obtain x where x: "subprocess_run (procs [hd linter_cmd, ''--version'']) None = Some x"
    by blast
  from assms subprocess_run_returns
  obtain y where y: "subprocess_run (procs linter_cmd) None = Some y"
    by blast
  from Some x y show ?thesis
    by (simp add: linter_one_def split: sum.splits)
qed

lemma linters_loop_returns:
  assumes "\<forall>cmd. procs cmd \<noteq> Hangs"
  shows "linters_loop procs languages acc \<noteq> None"
proof (induction languages arbitrary: acc)
  case Nil
  show ?case by simp
next
  case (Cons language rest)
  from linter_one_returns [OF assms] obtain rs where "linter_one procs language = Some rs"
    by blast
  with Cons.IH show ?case by simp
qed

lemma validate_code_returns:
  assumes "\<forall>cmd. procs cmd \<noteq> Hangs"
  shows "validate_code read_error procs r \<noteq> None"
  using linters_loop_returns [OF assms]
  by (simp add: validate_code_def run_linters_def Let_def)

subsection \<open>Agreement of two runs\<close>

text \<open>
  C9, as the code has it. Take two checkers that \<^verbatim>\<open>__init__\<close> has just constructed, and two
  full runs over the same repository (same root, same tree, same tools and the same
  observations of the other categories) in which the interpreter may iterate the set of
  extensions in different orders. Then one run returns exactly when the other does, and the
  two reports have the same summary, the same passed, warnings and errors buckets in the
  same order, and the same check names in the same order in the failed bucket. When the
  set is iterated in the same order in both runs, the two reports are identical. A run
  returns when no tool hangs. A second run on the checker of the first returns the first
  run's report with the same entries appended once more.
\<close>

theorem fresh_runs_agree:
  assumes "init sta rpa lga aa cfga = Inr ca" and "init stb rpb lgb ab cfgb = Inr cb"
    and "root_parts ra = root_parts rb" and "tree ra = tree rb"
    and "distinct (ext_iter ra)" and "set (ext_iter ra) = set extensions"
    and "distinct (ext_iter rb)" and "set (ext_iter rb) = set extensions"
  shows "map_option (\<lambda>d. get_summary (results d)) (check_all_over v e procs ra inc ca) =
      map_option (\<lambda>d. get_summary (results d)) (check_all_over v e procs rb inc cb)
    \<and> map_option (\<lambda>d. (passed (results d), warnings (results d), errors (results d),
          map check (failed (results d)))) (check_all_over v e procs ra inc ca) =
      map_option (\<lambda>d. (passed (results d), warnings (results d), errors (results d),
          map check (failed (results d)))) (check_all_over v e procs rb inc cb)
    \<and> (ext_iter ra = ext_iter rb \<longrightarrow>
        map_option results (check_all_over v e procs ra inc ca) =
        map_option results (check_all_over v e procs rb inc cb))
    \<and> ((\<forall>cmd. procs cmd \<noteq> Hangs) \<longrightarrow> check_all_over v e procs ra inc ca \<noteq> None)
    \<and> (\<forall>d. check_all_over v e procs ra inc ca = Some d \<longrightarrow>
        map_option results (check_all_over v e procs ra inc d) =
          Some (merge (results d) (results d)))"
proof -
  have fresh: "results ca = ValidationResult_init" "results cb = ValidationResult_init"
    using assms(1,2) by (simp_all add: init_results)
  define ec where "ec = (\<lambda>r :: repo. case find (\<lambda>p. rel_parts p = [''.editorconfig'']) (tree r) of
      None \<Rightarrow> [] | Some editorconfig_path \<Rightarrow> check_editorconfig e editorconfig_path)"
  have ec: "ec ra = ec rb"
    using assms(4) by (simp add: ec_def)
  have li: "run_linters procs ra = run_linters procs rb"
    using assms(4) by (rule run_linters_tree)
  have val: "validate_code e procs r =
      map_option (\<lambda>linters. ec r @ formatting_checks r @ linters) (run_linters procs r)" for r
    by (cases "run_linters procs r") (simp_all add: validate_code_def ec_def Let_def)
  have fv: "map verdict (formatting_checks ra) = map verdict (formatting_checks rb)"
    using assms(3,4,5,7,6,8) by (intro formatting_verdicts) simp_all
  have first: "map_option (\<lambda>d. (passed (results d), warnings (results d), errors (results d),
          map check (failed (results d)))) (check_all_over v e procs ra inc ca) =
      map_option (\<lambda>d. (passed (results d), warnings (results d), errors (results d),
          map check (failed (results d)))) (check_all_over v e procs rb inc cb)
    \<and> map_option (\<lambda>d. get_summary (results d)) (check_all_over v e procs ra inc ca) =
      map_option (\<lambda>d. get_summary (results d)) (check_all_over v e procs rb inc cb)"
  proof (cases "run_linters procs rb")
    case None
    with li show ?thesis by (simp add: check_all_over_def val)
  next
    case (Some linters)
    define rsa where "rsa = ec ra @ formatting_checks ra @ linters"
    define rsb where "rsb = ec rb @ formatting_checks rb @ linters"
    have "map verdict rsa = map verdict rsb"
      using ec fv by (simp add: rsa_def rsb_def)
    note b = all_contribution_verdicts [OF this, of v inc]
    from b have s: "get_summary (all_contribution (v\<lparr>code_validator := Inr rsa\<rparr>) inc) =
        get_summary (all_contribution (v\<lparr>code_validator := Inr rsb\<rparr>) inc)"
      by (intro summary_from_buckets) simp_all
    from Some li have "check_all_over v e procs ra inc ca =
        Some (check_all (v\<lparr>code_validator := Inr rsa\<rparr>) inc ca)"
      and "check_all_over v e procs rb inc cb =
        Some (check_all (v\<lparr>code_validator := Inr rsb\<rparr>) inc cb)"
      by (simp_all add: check_all_over_def val rsa_def rsb_def)
    with b s show ?thesis
      by (simp add: fresh_run_results fresh)
  qed
  have same: "map_option results (check_all_over v e procs ra inc ca) =
        map_option results (check_all_over v e procs rb inc cb)"
    if "ext_iter ra = ext_iter rb"
  proof -
    from that assms(3,4) have "ra = rb" by simp
    then show ?thesis
      by (simp add: check_all_over_def option.map_comp comp_def fresh_run_results fresh)
  qed
  have returns: "check_all_over v e procs ra inc ca \<noteq> None" if "\<forall>cmd. procs cmd \<noteq> Hangs"
    using validate_code_returns [OF that] by (simp add: check_all_over_def)
  have again: "map_option results (check_all_over v e procs ra inc d) =
          Some (merge (results d) (results d))"
    if "check_all_over v e procs ra inc ca = Some d" for d
  proof -
    from that obtain rs where rs: "validate_code e procs ra = Some rs"
      and d: "d = check_all (v\<lparr>code_validator := Inr rs\<rparr>) inc ca"
      by (auto simp: check_all_over_def)
    from d have "results d = all_contribution (v\<lparr>code_validator := Inr rs\<rparr>) inc"
      by (simp add: fresh_run_results fresh)
    with rs show ?thesis
      by (simp add: check_all_over_def check_all_results)
  qed
  from first same returns again show ?thesis by blast
qed

subsection \<open>The two runs on a concrete repository\<close>

lemma distinct_extensions: "distinct extensions"
  by (simp add: extensions_def)

lemma source_files_cd: "get_source_files repo_cd = [file_c, file_d]"
  by (simp add: get_source_files_def repo_cd_def extensions_eq rglob_def editorconfig_entry_def
      file_c_def file_d_def path_name_def ends_with_def excluded_dirs_def)

lemma source_files_dc: "get_source_files repo_dc = [file_d, file_c]"
  by (simp add: get_source_files_def repo_dc_def extensions_eq rglob_def editorconfig_entry_def
      file_c_def file_d_def path_name_def ends_with_def excluded_dirs_def)

lemma file_c_facts:
  "has_crlf file_c" "\<not> undecodable file_c" "long_lines file_c = []" "\<not> is_makefile file_c"
  "\<not> has_tab file_c" "\<not> has_trailing file_c" "rel_path file_c = ''c.py''"
  by (simp_all add: has_crlf_def undecodable_def long_lines_def is_makefile_def has_tab_def
      has_trailing_def rel_path_def file_c_def sublist_Cons_right utf8_seq_def iter_lines_def
      read_text_def path_name_def py_suffix_def rstrip_def rstrip_nl_def is_space_def
      MAX_LINE_LENGTH_def enumerate_eq_zip)

lemma file_d_facts:
  "has_crlf file_d" "\<not> undecodable file_d" "long_lines file_d = []" "\<not> is_makefile file_d"
  "\<not> has_tab file_d" "\<not> has_trailing file_d" "rel_path file_d = ''d.js''"
  by (simp_all add: has_crlf_def undecodable_def long_lines_def is_makefile_def has_tab_def
      has_trailing_def rel_path_def file_d_def sublist_Cons_right utf8_seq_def iter_lines_def
      read_text_def path_name_def py_suffix_def rstrip_def rstrip_nl_def is_space_def
      MAX_LINE_LENGTH_def enumerate_eq_zip)

lemma str_nat_2: "str_nat (Suc (Suc 0)) = ''2''"
  by (simp add: str_nat.simps)

lemma str_nat_79: "str_nat MAX_LINE_LENGTH = ''79''"
  by (simp add: str_nat.simps MAX_LINE_LENGTH_def)

lemma formatting_cd:
  "formatting_checks repo_cd =
     [\<lparr>check = ''line_endings'',
       message = ''Files with Windows line endings (CRLF): c.py, d.js'', status = ''fail''\<rparr>,
      \<lparr>check = ''encoding'', message = ''All 2 source files use UTF-8 encoding'',
       status = ''pass''\<rparr>,
      \<lparr>check = ''line_length'',
       message = ''All lines in 2 source files within 79 character limit'',
       status = ''pass''\<rparr>,
      \<lparr>check = ''indentation'', message = ''All 2 source files use space indentation'',
       status = ''pass''\<rparr>,
      \<lparr>check = ''trailing_whitespace'',
       message = ''No trailing whitespace found in 2 source files'', status = ''pass''\<rparr>]"
  by (simp add: formatting_checks_def check_line_endings_policy check_encoding_policy
      check_line_length_policy check_indentation_policy check_trailing_policy
      aggregate_policy_def offenders_def source_files_cd file_c_facts file_d_facts
      str_nat_2 str_nat_79)

lemma formatting_dc:
  "formatting_checks repo_dc =
     [\<lparr>check = ''line_endings'',
       message = ''Files with Windows line endings (CRLF): d.js, c.py'', status = ''fail''\<rparr>,
      \<lparr>check = ''encoding'', message = ''All 2 source files use UTF-8 encoding'',
       status = ''pass''\<rparr>,
      \<lparr>check = ''line_length'',
       message = ''All lines in 2 source files within 79 character limit'',
       status = ''pass''\<rparr>,
      \<lparr>check = ''indentation'', message = ''All 2 source files use space indentation'',
       status = ''pass''\<rparr>,
      \<lparr>check = ''trailing_whitespace'',
       message = ''No trailing whitespace found in 2 source files'', status = ''pass''\<rparr>]"
  by (simp add: formatting_checks_def check_line_endings_policy check_encoding_policy
      check_line_length_policy check_indentation_policy check_trailing_policy
      aggregate_policy_def offenders_def source_files_dc file_c_facts file_d_facts
      str_nat_2 str_nat_79)

lemma editorconfig_records:
  "check_editorconfig read_error0 editorconfig_entry =
     [\<lparr>check = ''editorconfig_end_of_line'',
       message = ''.editorconfig missing: Unix line endings (LF)'', status = ''warning''\<rparr>,
      \<lparr>check = ''editorconfig_charset'',
       message = ''.editorconfig specifies: UTF-8 encoding'', status = ''pass''\<rparr>,
      \<lparr>check = ''editorconfig_indent_style'',
       message = ''.editorconfig missing: Space indentation'', status = ''warning''\<rparr>,
      \<lparr>check = ''editorconfig_trim_trailing_whitespace'',
       message = ''.editorconfig missing: Trim trailing whitespace'', status = ''warning''\<rparr>,
      \<lparr>check = ''editorconfig_insert_final_newline'',
       message = ''.editorconfig missing: Final newline'', status = ''warning''\<rparr>]"
proof -
  have r: "read_text editorconfig_entry =
      Some [99, 104, 97, 114, 115, 101, 116, 32, 61, 32, 117, 116, 102, 45, 56, 10]"
    by (simp add: read_text_def editorconfig_entry_def utf8_seq_def)
  show ?thesis
    by (simp add: check_editorconfig_def r editorconfig_checks_def first_word_def
        is_space_def sublist_Cons_right)
qed

lemma capitalize_javascript: "capitalize ''javascript'' = ''Javascript''"
  by code_simp

lemma linters_cd:
  "detect_languages repo_cd = [''python'', ''javascript'']"
  "run_linters procs_absent repo_cd =
     Some [\<lparr>check = ''linter_python'', message = ''Python linter not available: ruff'',
            status = ''warning''\<rparr>,
           \<lparr>check = ''linter_javascript'',
            message = ''Javascript linter not available: eslint'', status = ''warning''\<rparr>]"
proof -
  show d: "detect_languages repo_cd = [''python'', ''javascript'']"
    by (simp add: detect_languages_def LANGUAGE_EXTENSIONS_def rglob_def repo_cd_def
        editorconfig_entry_def file_c_def file_d_def path_name_def ends_with_def)
  have 1: "linter_one procs_absent ''python'' =
      Some [\<lparr>check = ''linter_python'', message = ''Python linter not available: ruff'',
             status = ''warning''\<rparr>]"
    by (simp add: linter_one_def LINTERS_def procs_absent_def subprocess_run_def
        linter_handler_def capitalize_python)
  have 2: "linter_one procs_absent ''javascript'' =
      Some [\<lparr>check = ''linter_javascript'',
             message = ''Javascript linter not available: eslint'', status = ''warning''\<rparr>]"
    by (simp add: linter_one_def LINTERS_def procs_absent_def subprocess_run_def
        linter_handler_def capitalize_javascript)
  show "run_linters procs_absent repo_cd =
     Some [\<lparr>check = ''linter_python'', message = ''Python linter not available: ruff'',
            status = ''warning''\<rparr>,
           \<lparr>check = ''linter_javascript'',
            message = ''Javascript linter not available: eslint'', status = ''warning''\<rparr>]"
    by (simp add: run_linters_def d 1 2)
qed

lemma validate_cd:
  "validate_code read_error0 procs_absent repo_cd =
     Some (check_editorconfig read_error0 editorconfig_entry @ formatting_checks repo_cd
           @ [\<lparr>check = ''linter_python'', message = ''Python linter not available: ruff'',
                status = ''warning''\<rparr>,
               \<lparr>check = ''linter_javascript'',
                message = ''Javascript linter not available: eslint'',
                status = ''warning''\<rparr>])"
proof -
  have "find (\<lambda>p. rel_parts p = [''.editorconfig'']) (tree repo_cd) = Some editorconfig_entry"
    by (simp add: repo_cd_def editorconfig_entry_def)
  then show ?thesis
    by (simp add: validate_code_def Let_def linters_cd(2))
qed

lemma validate_dc:
  "validate_code read_error0 procs_absent repo_dc =
     Some (check_editorconfig read_error0 editorconfig_entry @ formatting_checks repo_dc
           @ [\<lparr>check = ''linter_python'', message = ''Python linter not available: ruff'',
                status = ''warning''\<rparr>,
               \<lparr>check = ''linter_javascript'',
                message = ''Javascript linter not available: eslint'',
                status = ''warning''\<rparr>])"
proof -
  have "find (\<lambda>p. rel_parts p = [''.editorconfig'']) (tree repo_dc) = Some editorconfig_entry"
    by (simp add: repo_dc_def editorconfig_entry_def)
  moreover have "run_linters procs_absent repo_dc = run_linters procs_absent repo_cd"
    by (rule run_linters_tree) (simp add: repo_dc_def repo_cd_def)
  ultimately show ?thesis
    by (simp add: validate_code_def Let_def linters_cd(2))
qed

lemma fresh_ab:
  "init Directory ''/repo'' [] ''.'' None = Inr fresh_a"
  "init Directory ''/repo'' [] ''/repo'' (Some ''rules.json'') = Inr fresh_b"
  "results fresh_a = ValidationResult_init" "results fresh_b = ValidationResult_init"
  by (simp_all add: init_def fresh_a_def fresh_b_def checker0_def)

lemma run_cd:
  "map_option results (check_all_over env1 read_error0 procs_absent repo_cd False fresh_a) =
     Some \<lparr>passed =
             [\<lparr>check = ''required_file_README.md'',
               message = ''Required file exists: README.md''\<rparr>,
              \<lparr>check = ''editorconfig_charset'',
               message = ''.editorconfig specifies: UTF-8 encoding''\<rparr>,
              \<lparr>check = ''encoding'', message = ''All 2 source files use UTF-8 encoding''\<rparr>,
              \<lparr>check = ''line_length'',
               message = ''All lines in 2 source files within 79 character limit''\<rparr>,
              \<lparr>check = ''indentation'',
               message = ''All 2 source files use space indentation''\<rparr>,
              \<lparr>check = ''trailing_whitespace'',
               message = ''No trailing whitespace found in 2 source files''\<rparr>],
           failed =
             [\<lparr>check = ''license_file'', message = ''No license file found''\<rparr>,
              \<lparr>check = ''line_endings'',
               message = ''Files with Windows line endings (CRLF): c.py, d.js''\<rparr>],
           warnings =
             [\<lparr>check = ''editorconfig_end_of_line'',
               message = ''.editorconfig missing: Unix line endings (LF)''\<rparr>,
              \<lparr>check = ''editorconfig_indent_style'',
               message = ''.editorconfig missing: Space indentation''\<rparr>,
              \<lparr>check = ''editorconfig_trim_trailing_whitespace'',
               message = ''.editorconfig missing: Trim trailing whitespace''\<rparr>,
              \<lparr>check = ''editorconfig_insert_final_newline'',
               message = ''.editorconfig missing: Final newline''\<rparr>,
              \<lparr>check = ''linter_python'', message = ''Python linter not available: ruff''\<rparr>,
              \<lparr>check = ''linter_javascript'',
               message = ''Javascript linter not available: eslint''\<rparr>,
              \<lparr>check = ''commit_signing'', message = ''w''\<rparr>],
           errors = []\<rparr>"
  by (simp add: check_all_over_def validate_cd fresh_run_results fresh_ab(3)
      editorconfig_records formatting_cd all_contribution_def contribution_def merge_def
      with_status_def pass_entry_def plain_entry_def env1_def ValidationResult_init_def)

lemma failed_dc:
  "map_option (\<lambda>d. failed (results d))
     (check_all_over env1 read_error0 procs_absent repo_dc False fresh_b) =
     Some [\<lparr>check = ''license_file'', message = ''No license file found''\<rparr>,
           \<lparr>check = ''line_endings'',
            message = ''Files with Windows line endings (CRLF): d.js, c.py''\<rparr>]"
  by (simp add: check_all_over_def validate_dc fresh_run_results fresh_ab(4)
      editorconfig_records formatting_dc all_contribution_def contribution_def merge_def
      with_status_def pass_entry_def plain_entry_def env1_def ValidationResult_init_def)

lemma orders_cd:
  "root_parts repo_cd = root_parts repo_dc" "tree repo_cd = tree repo_dc"
  "distinct (ext_iter repo_cd)" "set (ext_iter repo_cd) = set extensions"
  "distinct (ext_iter repo_dc)" "set (ext_iter repo_dc) = set extensions"
  by (simp_all add: repo_cd_def repo_dc_def distinct_extensions)

lemma orders_differ: "ext_iter repo_cd \<noteq> ext_iter repo_dc"
  by (simp add: repo_cd_def repo_dc_def extensions_eq)

theorem fresh_runs_agree_witness:
  "init Directory ''/repo'' [] ''.'' None = Inr fresh_a
   \<and> init Directory ''/repo'' [] ''/repo'' (Some ''rules.json'') = Inr fresh_b
   \<and> root_parts repo_cd = root_parts repo_dc \<and> tree repo_cd = tree repo_dc
   \<and> distinct (ext_iter repo_cd) \<and> set (ext_iter repo_cd) = set extensions
   \<and> distinct (ext_iter repo_dc) \<and> set (ext_iter repo_dc) = set extensions
   \<and> ext_iter repo_cd \<noteq> ext_iter repo_dc
   \<and> map_option (\<lambda>d. get_summary (results d))
        (check_all_over env1 read_error0 procs_absent repo_cd False fresh_a) =
       Some \<lparr>total_checks = 8, n_passed = 6, n_failed = 2, n_warnings = 7, n_errors = 0,
             sum_is_passing = False\<rparr>
   \<and> map_option (\<lambda>d. get_summary (results d))
        (check_all_over env1 read_error0 procs_absent repo_dc False fresh_b) =
       Some \<lparr>total_checks = 8, n_passed = 6, n_failed = 2, n_warnings = 7, n_errors = 0,
             sum_is_passing = False\<rparr>
   \<and> map_option (\<lambda>d. map check (failed (results d)))
        (check_all_over env1 read_error0 procs_absent repo_dc False fresh_b) =
       Some [''license_file'', ''line_endings'']
   \<and> check_all_over env1 read_error0 procs_absent repo_cd False fresh_a \<noteq> None"
proof -
  note t = fresh_runs_agree [OF fresh_ab(1) fresh_ab(2) orders_cd, where v = env1
      and e = read_error0 and procs = procs_absent and inc = False]
  obtain d where d: "check_all_over env1 read_error0 procs_absent repo_cd False fresh_a = Some d"
    using run_cd by (cases "check_all_over env1 read_error0 procs_absent repo_cd False fresh_a")
      simp_all
  with run_cd have r: "results d = the (map_option results
      (check_all_over env1 read_error0 procs_absent repo_cd False fresh_a))"
    by simp
  have s: "get_summary (results d) =
      \<lparr>total_checks = 8, n_passed = 6, n_failed = 2, n_warnings = 7, n_errors = 0,
       sum_is_passing = False\<rparr>"
    and f: "map check (failed (results d)) = [''license_file'', ''line_endings'']"
    unfolding r run_cd by (simp_all add: get_summary_def is_passing_def)
  from t d s have 1: "map_option (\<lambda>d. get_summary (results d))
        (check_all_over env1 read_error0 procs_absent repo_dc False fresh_b) =
       Some \<lparr>total_checks = 8, n_passed = 6, n_failed = 2, n_warnings = 7, n_errors = 0,
             sum_is_passing = False\<rparr>"
    by simp
  from t d f have 2: "map_option (\<lambda>d. map check (failed (results d)))
        (check_all_over env1 read_error0 procs_absent repo_dc False fresh_b) =
       Some [''license_file'', ''line_endings'']"
    by (cases "check_all_over env1 read_error0 procs_absent repo_dc False fresh_b") auto
  from t have 3: "check_all_over env1 read_error0 procs_absent repo_cd False fresh_a \<noteq> None"
    by (simp add: procs_absent_def)
  from d s have 0: "map_option (\<lambda>d. get_summary (results d))
        (check_all_over env1 read_error0 procs_absent repo_cd False fresh_a) =
       Some \<lparr>total_checks = 8, n_passed = 6, n_failed = 2, n_warnings = 7, n_errors = 0,
             sum_is_passing = False\<rparr>"
    by simp
  from fresh_ab(1,2) orders_cd orders_differ 0 1 2 3 show ?thesis
    by blast
qed

text \<open>
  C9 as stated fails in two ways. When the two runs use one checker, the second run's
  summary and buckets are not those of the first. And two fresh checkers in two interpreter
  processes that iterate the set of extensions in different orders list the offending files
  of the unmodified repository in different orders, so the failed buckets differ.
\<close>

theorem repeated_runs_counterexample:
  "get_summary (results (check_all env1 False checker0)) =
     \<lparr>total_checks = 2, n_passed = 1, n_failed = 1, n_warnings = 1, n_errors = 0,
      sum_is_passing = False\<rparr>
   \<and> get_summary (results (check_all env1 False (check_all env1 False checker0))) =
     \<lparr>total_checks = 4, n_passed = 2, n_failed = 2, n_warnings = 2, n_errors = 0,
      sum_is_passing = False\<rparr>
   \<and> failed (results (check_all env1 False (check_all env1 False checker0))) =
     [\<lparr>check = ''license_file'', message = ''No license file found''\<rparr>,
      \<lparr>check = ''license_file'', message = ''No license file found''\<rparr>]
   \<and> root_parts repo_cd = root_parts repo_dc \<and> tree repo_cd = tree repo_dc
   \<and> set (ext_iter repo_cd) = set (ext_iter repo_dc)
   \<and> map_option (\<lambda>d. failed (results d))
        (check_all_over env1 read_error0 procs_absent repo_cd False fresh_a) =
       Some [\<lparr>check = ''license_file'', message = ''No license file found''\<rparr>,
             \<lparr>check = ''line_endings'',
              message = ''Files with Windows line endings (CRLF): c.py, d.js''\<rparr>]
   \<and> map_option (\<lambda>d. failed (results d))
        (check_all_over env1 read_error0 procs_absent repo_dc False fresh_b) =
       Some [\<lparr>check = ''license_file'', message = ''No license file found''\<rparr>,
             \<lparr>check = ''line_endings'',
              message = ''Files with Windows line endings (CRLF): d.js, c.py''\<rparr>]"
proof -
  have a: "get_summary (results (check_all env1 False checker0)) =
     \<lparr>total_checks = 2, n_passed = 1, n_failed = 1, n_warnings = 1, n_errors = 0,
      sum_is_passing = False\<rparr>
   \<and> get_summary (results (check_all env1 False (check_all env1 False checker0))) =
     \<lparr>total_checks = 4, n_passed = 2, n_failed = 2, n_warnings = 2, n_errors = 0,
      sum_is_passing = False\<rparr>
   \<and> failed (results (check_all env1 False (check_all env1 False checker0))) =
     [\<lparr>check = ''license_file'', message = ''No license file found''\<rparr>,
      \<lparr>check = ''license_file'', message = ''No license file found''\<rparr>]"
    by (simp add: check_all_results all_contribution_def contribution_def merge_def env1_def
        checker0_def with_status_def pass_entry_def plain_entry_def ValidationResult_init_def
        get_summary_def is_passing_def)
  have b: "map_option (\<lambda>d. failed (results d))
        (check_all_over env1 read_error0 procs_absent repo_cd False fresh_a) =
       Some [\<lparr>check = ''license_file'', message = ''No license file found''\<rparr>,
             \<lparr>check = ''line_endings'',
              message = ''Files with Windows line endings (CRLF): c.py, d.js''\<rparr>]"
    using run_cd
    by (cases "check_all_over env1 read_error0 procs_absent repo_cd False fresh_a") auto
  have c: "set (ext_iter repo_cd) = set (ext_iter repo_dc)"
    by (simp add: orders_cd)
  from a b c failed_dc orders_cd(1,2) show ?thesis
    by blast
qed

end
